theory Spec2Isabelle
  imports Main "HOL-Library.AList"
begin

section \<open>JavaScript values, errors and the object store\<close>

text \<open>
  A model of \<^verbatim>\<open>src/Typesense/Documents.ts\<close>: the methods \<^verbatim>\<open>create\<close>, \<^verbatim>\<open>upsert\<close>,
  \<^verbatim>\<open>update\<close>, \<^verbatim>\<open>createMany\<close>, \<^verbatim>\<open>import\<close> and \<^verbatim>\<open>export\<close> of the class \<^verbatim>\<open>Documents\<close>.
  A method is a function from the state before the call to its outcome, a value or an
  error, and the state after. An \<^verbatim>\<open>async\<close> method that rejects and a method that throws
  both end with the error.

  The values the file handles are documents, decoded import results and the bodies
  the transport returns. Numbers are restricted to integers, and there are no
  functions, so no value has a \<^verbatim>\<open>toJSON\<close> or a \<^verbatim>\<open>split\<close> of its own. An object is the
  list of its own properties in insertion order, read with \<open>map_of\<close> and written with
  \<open>AList.update\<close>, so a key is never bound twice by this code. Documents and results
  are only read, and are plain values.
\<close>

datatype jsval =
    JUndefined
  | JNull
  | JBool bool
  | JNum int
  | JStr string
  | JArr "jsval list"
  | JObj "(string \<times> jsval) list"

type_synonym js_object = "(string \<times> jsval) list"

text \<open>
  What a call can end with instead of a value. \<open>Error\<close> and \<open>ImportError\<close> are the two
  errors \<^verbatim>\<open>Documents.ts\<close> constructs itself, with their message and, for the second,
  its \<^verbatim>\<open>importResults\<close>; \<open>TypeError\<close> and \<open>SyntaxError\<close> are raised by the language (a
  property read on \<^verbatim>\<open>null\<close>, a call of something that is no function, \<^verbatim>\<open>JSON.parse\<close>);
  \<open>ApiCallError\<close> wraps whatever the \<^verbatim>\<open>ApiCall\<close> object rejects with, which keeps the
  transport's errors apart from the two the file constructs.
\<close>

datatype 'e js_error =
    Error string
  | ImportError string "jsval list"
  | TypeError
  | SyntaxError string
  | ApiCallError 'e

text \<open>\<^verbatim>\<open>!document\<close>: the falsy values among \<open>jsval\<close>.\<close>

fun falsy :: "jsval \<Rightarrow> bool" where
  "falsy JUndefined = True"
| "falsy JNull = True"
| "falsy (JBool b) = (\<not> b)"
| "falsy (JNum n) = (n = 0)"
| "falsy (JStr s) = (s = [])"
| "falsy (JArr xs) = False"
| "falsy (JObj ps) = False"

text \<open>
  Option objects are mutable and shared with the caller, so they live in a store: a
  reference is an index into the list of allocated objects, and an object literal
  allocates at the end. A read of a key the object does not have gives \<^verbatim>\<open>undefined\<close>.
\<close>

type_synonym ref = nat

definition new_object :: "js_object \<Rightarrow> js_object list \<Rightarrow> ref \<times> js_object list" where
  "new_object props h = (length h, h @ [props])"

definition own_properties :: "js_object list \<Rightarrow> ref \<Rightarrow> js_object" where
  "own_properties h r = (if r < length h then h ! r else [])"

definition get_property :: "js_object list \<Rightarrow> ref \<Rightarrow> string \<Rightarrow> jsval" where
  "get_property h r k = (case map_of (own_properties h r) k of None \<Rightarrow> JUndefined | Some v \<Rightarrow> v)"

text \<open>
  A write \<^verbatim>\<open>target[k] = v\<close> goes through the prototype chain of the target. The values
  here are plain data, so every property in sight is a writable data property and the
  write makes or updates an own property of the target, with one exception: the key
  \<^verbatim>\<open>__proto__\<close>, where the target has no own property of that name and the chain leads
  to the accessor of \<^verbatim>\<open>Object.prototype\<close>. Then the setter runs; it makes no property,
  and it replaces the prototype of the target when the value is an object or \<^verbatim>\<open>null\<close>.

  The store keeps the own properties of an object, not its prototype. The only object
  this file writes to is the new \<^verbatim>\<open>{}\<close> of lines 156 and 161, so its prototype, which is
  \<^verbatim>\<open>Object.prototype\<close> when the copy starts, is carried along with the store while the
  object is filled.
\<close>

datatype prototype = Object_prototype | Null_prototype | Value_prototype jsval

text \<open>Whether a lookup of \<^verbatim>\<open>__proto__\<close> that starts at this prototype finds the accessor.\<close>

fun accessor_inherited :: "prototype \<Rightarrow> bool" where
  "accessor_inherited Object_prototype = True"
| "accessor_inherited Null_prototype = False"
| "accessor_inherited (Value_prototype (JObj ps)) = (map_of ps ''__proto__'' = None)"
| "accessor_inherited (Value_prototype v) = True"

text \<open>The setter of \<^verbatim>\<open>__proto__\<close>: the new prototype of an object whose prototype was \<open>p\<close>.\<close>

fun proto_setter :: "jsval \<Rightarrow> prototype \<Rightarrow> prototype" where
  "proto_setter JNull p = Null_prototype"
| "proto_setter (JObj ps) p = Value_prototype (JObj ps)"
| "proto_setter (JArr vs) p = Value_prototype (JArr vs)"
| "proto_setter v p = p"

definition ordinary_set :: "string \<Rightarrow> jsval \<Rightarrow> prototype \<times> js_object \<Rightarrow> prototype \<times> js_object" where
  "ordinary_set k v obj =
     (case obj of
        (p, ps) \<Rightarrow>
          if k = ''__proto__'' \<and> map_of ps k = None \<and> accessor_inherited p
          then (proto_setter v p, ps)
          else (p, AList.update k v ps))"

definition set_property ::
  "ref \<Rightarrow> string \<Rightarrow> jsval \<Rightarrow> prototype \<times> js_object list \<Rightarrow> prototype \<times> js_object list" where
  "set_property r k v st =
     (case st of
        (p, h) \<Rightarrow>
          if r < length h
          then (case ordinary_set k v (p, h ! r) of (p', ps) \<Rightarrow> (p', h[r := ps]))
          else (p, h))"

text \<open>
  The keys of the own properties of an object, each once, in the order of the list.
  (The language lists keys that are array indices first; the theorems below read
  objects through \<open>map_of\<close> and do not depend on the order.)
\<close>

definition own_keys :: "js_object list \<Rightarrow> ref \<Rightarrow> string list" where
  "own_keys h r = remdups (map fst (own_properties h r))"

text \<open>
  \<^verbatim>\<open>Object.assign(target, ...sources)\<close>: for each source in turn, the keys of its own
  properties are listed, and for each key the value is read from the source and
  written to the target. The target is mutated; the sources are only read. The first
  component of the state is the prototype of the target.
\<close>

definition copy_properties ::
  "ref \<Rightarrow> ref \<Rightarrow> prototype \<times> js_object list \<Rightarrow> prototype \<times> js_object list" where
  "copy_properties target src st =
     fold (\<lambda>k st'. set_property target k (get_property (snd st') src k) st') (own_keys (snd st) src) st"

definition Object_assign ::
  "ref \<Rightarrow> ref list \<Rightarrow> prototype \<times> js_object list \<Rightarrow> prototype \<times> js_object list" where
  "Object_assign target sources st = fold (copy_properties target) sources st"

section \<open>The collaborators of \<^verbatim>\<open>Documents\<close>\<close>

text \<open>
  The third argument of \<^verbatim>\<open>apiCall.performRequest\<close> as \<^verbatim>\<open>import\<close> builds it, and the
  three \<^verbatim>\<open>ApiCall\<close> entry points the modelled methods use.
\<close>

record request_options =
  queryParameters :: ref
  bodyParameters :: string
  additionalHeaders :: "(string \<times> string) list"

datatype api_call =
    Get string ref
  | Post string jsval ref
  | PerformRequest string string request_options

text \<open>
  \<^verbatim>\<open>ApiCall\<close>, \<^verbatim>\<open>SearchOnlyDocuments.endpointPath\<close> and the logger are not part of the
  modelled file, so a \<^verbatim>\<open>Documents\<close> object takes them as parameters. \<open>apiCall\<close> reads
  the object store, acts on a state \<open>'w\<close> of its own (nodes, network, service) and
  resolves with a body or rejects with an \<open>'e\<close>.
\<close>

record ('w, 'e) documents =
  endpointPath :: "string option \<Rightarrow> string"
  apiCall :: "js_object list \<Rightarrow> api_call \<Rightarrow> 'w \<Rightarrow> ('e + jsval) \<times> 'w"

text \<open>
  \<^verbatim>\<open>JSON.parse\<close> and \<^verbatim>\<open>JSON.stringify\<close> are built-ins of the language, parameters as
  well: \<open>JSON_parse\<close> returns the value or the message of the \<^verbatim>\<open>SyntaxError\<close> it throws,
  \<open>JSON_stringify\<close> returns the text or \<open>None\<close> for \<^verbatim>\<open>undefined\<close>. It does not throw:
  the values it throws on, cyclic ones and big integers, are not among \<open>jsval\<close>.
\<close>

record json_builtin =
  JSON_parse :: "string \<Rightarrow> string + jsval"
  JSON_stringify :: "jsval \<Rightarrow> string option"

text \<open>
  The state a method runs in: the object store, the \<^verbatim>\<open>ApiCall\<close> invocations made so far
  (a trace kept to state what was sent), the warnings handed to
  \<^verbatim>\<open>configuration.logger.warn\<close>, and the state behind \<open>apiCall\<close>.
\<close>

record 'w state =
  heap :: "js_object list"
  calls :: "api_call list"
  warnings :: "string list"
  world :: 'w

definition invoke :: "('w, 'e) documents \<Rightarrow> api_call \<Rightarrow> 'w state \<Rightarrow> ('e js_error + jsval) \<times> 'w state" where
  "invoke this c s =
     (case apiCall this (heap s) c (world s) of
        (Inl e, w) \<Rightarrow> (Inl (ApiCallError e), s\<lparr>calls := calls s @ [c], world := w\<rparr>)
      | (Inr v, w) \<Rightarrow> (Inr v, s\<lparr>calls := calls s @ [c], world := w\<rparr>))"

text \<open>The default \<^verbatim>\<open>options = {}\<close>: an omitted argument is a fresh empty object.\<close>

definition default_options :: "ref option \<Rightarrow> 'w state \<Rightarrow> ref \<times> 'w state" where
  "default_options options s =
     (case options of
        Some r \<Rightarrow> (r, s)
      | None \<Rightarrow> (case new_object [] (heap s) of (r, h) \<Rightarrow> (r, s\<lparr>heap := h\<rparr>)))"

section \<open>\<^verbatim>\<open>create\<close>, \<^verbatim>\<open>upsert\<close>, \<^verbatim>\<open>update\<close>\<close>

definition create ::
  "('w, 'e) documents \<Rightarrow> jsval \<Rightarrow> ref option \<Rightarrow> 'w state \<Rightarrow> ('e js_error + jsval) \<times> 'w state" where
  "create this document options s =
     (case default_options options s of
        (opts, s1) \<Rightarrow>
          if falsy document then (Inl (Error ''No document provided''), s1)
          else invoke this (Post (endpointPath this None) document opts) s1)"

text \<open>
  \<^verbatim>\<open>Object.assign({}, options, { action: a })\<close>: both literals are allocated, then the
  first, whose prototype is \<^verbatim>\<open>Object.prototype\<close>, is filled from \<open>options\<close> and from the
  second, and returned.
\<close>

definition with_action :: "string \<Rightarrow> ref \<Rightarrow> js_object list \<Rightarrow> ref \<times> js_object list" where
  "with_action a opts h =
     (case new_object [] h of
        (target, h1) \<Rightarrow>
          (case new_object [(''action'', JStr a)] h1 of
             (src, h2) \<Rightarrow> (target, snd (Object_assign target [opts, src] (Object_prototype, h2)))))"

definition upsert ::
  "('w, 'e) documents \<Rightarrow> jsval \<Rightarrow> ref option \<Rightarrow> 'w state \<Rightarrow> ('e js_error + jsval) \<times> 'w state" where
  "upsert this document options s =
     (case default_options options s of
        (opts, s1) \<Rightarrow>
          if falsy document then (Inl (Error ''No document provided''), s1)
          else (case with_action ''upsert'' opts (heap s1) of
                  (sent, h) \<Rightarrow> invoke this (Post (endpointPath this None) document sent) (s1\<lparr>heap := h\<rparr>)))"

definition update ::
  "('w, 'e) documents \<Rightarrow> jsval \<Rightarrow> ref option \<Rightarrow> 'w state \<Rightarrow> ('e js_error + jsval) \<times> 'w state" where
  "update this document options s =
     (case default_options options s of
        (opts, s1) \<Rightarrow>
          if falsy document then (Inl (Error ''No document provided''), s1)
          else (case with_action ''update'' opts (heap s1) of
                  (sent, h) \<Rightarrow> invoke this (Post (endpointPath this None) document sent) (s1\<lparr>heap := h\<rparr>)))"

section \<open>\<^verbatim>\<open>import\<close>: the line codec\<close>

definition LF :: char where
  "LF = CHR 0x0A"

text \<open>
  \<^verbatim>\<open>array.join(sep)\<close> as the language defines it: a loop over the indices that appends
  the separator before every element but the first, then the element, where an
  \<^verbatim>\<open>undefined\<close> element contributes the empty string.
\<close>

fun Array_join_from :: "string \<Rightarrow> nat \<Rightarrow> string option list \<Rightarrow> string \<Rightarrow> string" where
  "Array_join_from sep k [] R = R"
| "Array_join_from sep k (e # es) R =
     Array_join_from sep (Suc k) es
       ((if 0 < k then R @ sep else R) @ (case e of None \<Rightarrow> [] | Some t \<Rightarrow> t))"

definition Array_join :: "string \<Rightarrow> string option list \<Rightarrow> string" where
  "Array_join sep es = Array_join_from sep 0 es []"

text \<open>
  \<^verbatim>\<open>text.split(c)\<close> for a one-character separator: a scan that closes the current piece
  at every separator and at the end, so the result is never empty.
\<close>

fun String_split_from :: "char \<Rightarrow> string \<Rightarrow> string \<Rightarrow> string list" where
  "String_split_from c piece [] = [piece]"
| "String_split_from c piece (x # xs) =
     (if x = c then piece # String_split_from c [] xs
      else String_split_from c (piece @ [x]) xs)"

definition String_split :: "char \<Rightarrow> string \<Rightarrow> string list" where
  "String_split c t = String_split_from c [] t"

text \<open>
  Line 192, \<^verbatim>\<open>documents.map((document) => JSON.stringify(document)).join('\n')\<close>, and
  line 204, \<^verbatim>\<open>resultsInJSONLFormat.split('\n').map((r) => JSON.parse(r))\<close>. The map stops
  at the first line \<^verbatim>\<open>JSON.parse\<close> throws on.
\<close>

definition encode_documents :: "json_builtin \<Rightarrow> jsval list \<Rightarrow> string" where
  "encode_documents J documents = Array_join [LF] (map (JSON_stringify J) documents)"

fun map_parse :: "json_builtin \<Rightarrow> string list \<Rightarrow> 'e js_error + jsval list" where
  "map_parse J [] = Inr []"
| "map_parse J (r # rs) =
     (case JSON_parse J r of
        Inl msg \<Rightarrow> Inl (SyntaxError msg)
      | Inr v \<Rightarrow> (case map_parse J rs of Inl e \<Rightarrow> Inl e | Inr vs \<Rightarrow> Inr (v # vs)))"

definition decode_results :: "json_builtin \<Rightarrow> string \<Rightarrow> 'e js_error + jsval list" where
  "decode_results J resultsInJSONLFormat = map_parse J (String_split LF resultsInJSONLFormat)"

section \<open>\<^verbatim>\<open>import\<close>: partition and outcome\<close>

text \<open>
  \<^verbatim>\<open>r.success === false\<close>. Reading a property of \<^verbatim>\<open>null\<close> or \<^verbatim>\<open>undefined\<close> throws;
  booleans, numbers, strings and arrays have no property \<^verbatim>\<open>success\<close>.
\<close>

fun success_is_false :: "jsval \<Rightarrow> 'e js_error + bool" where
  "success_is_false JUndefined = Inl TypeError"
| "success_is_false JNull = Inl TypeError"
| "success_is_false (JObj ps) = Inr (map_of ps ''success'' = Some (JBool False))"
| "success_is_false v = Inr False"

text \<open>\<^verbatim>\<open>resultsInJSONFormat.filter((r) => r.success === false)\<close>, left to right.\<close>

fun filter_failed :: "jsval list \<Rightarrow> 'e js_error + jsval list" where
  "filter_failed [] = Inr []"
| "filter_failed (r # rs) =
     (case success_is_false r of
        Inl e \<Rightarrow> Inl e
      | Inr b \<Rightarrow> (case filter_failed rs of
                    Inl e \<Rightarrow> Inl e
                  | Inr fs \<Rightarrow> Inr (if b then r # fs else fs)))"

text \<open>A length in a template literal: its decimal digits.\<close>

definition digit_char :: "nat \<Rightarrow> char" where
  "digit_char d = ''0123456789'' ! d"

function string_of_nat :: "nat \<Rightarrow> string" where
  "string_of_nat n =
     (if n < 10 then [digit_char n] else string_of_nat (n div 10) @ [digit_char (n mod 10)])"
  by pat_completeness auto
termination
  by (relation "measure id") auto

definition import_message :: "nat \<Rightarrow> nat \<Rightarrow> string" where
  "import_message imported failed =
     string_of_nat imported @ '' documents imported successfully, '' @ string_of_nat failed
       @ '' documents failed during import. Use `error.importResults` from the raised exception to get a detailed error reason for each document.''"

text \<open>The argument \<^verbatim>\<open>documents: T[] | string\<close>.\<close>

datatype import_input = Documents_array "jsval list" | Documents_text string

text \<open>
  Lines 203 to 215, once the request has resolved with \<open>resultsInJSONLFormat\<close>. A body
  that is not a string has no \<^verbatim>\<open>split\<close> to call.
\<close>

definition import_results :: "json_builtin \<Rightarrow> jsval \<Rightarrow> 'e js_error + jsval" where
  "import_results J resultsInJSONLFormat =
     (case resultsInJSONLFormat of
        JStr t \<Rightarrow>
          (case decode_results J t of
             Inl e \<Rightarrow> Inl e
           | Inr resultsInJSONFormat \<Rightarrow>
               (case filter_failed resultsInJSONFormat of
                  Inl e \<Rightarrow> Inl e
                | Inr failedItems \<Rightarrow>
                    if 0 < length failedItems
                    then Inl (ImportError
                               (import_message (length resultsInJSONFormat - length failedItems)
                                  (length failedItems))
                               resultsInJSONFormat)
                    else Inr (JArr resultsInJSONFormat)))
      | _ \<Rightarrow> Inl TypeError)"

text \<open>
  Lines 190 to 201: the body is the joined encodings of an array, or the text as given;
  the request carries it with \<open>options\<close> as query parameters.
\<close>

definition import_request :: "json_builtin \<Rightarrow> ('w, 'e) documents \<Rightarrow> import_input \<Rightarrow> ref \<Rightarrow> api_call" where
  "import_request J this documents opts =
     PerformRequest ''post'' (endpointPath this (Some ''import''))
       \<lparr>queryParameters = opts,
        bodyParameters = (case documents of
                            Documents_array ds \<Rightarrow> encode_documents J ds
                          | Documents_text documentsInJSONLFormat \<Rightarrow> documentsInJSONLFormat),
        additionalHeaders = [(''Content-Type'', ''text/plain'')]\<rparr>"

definition import ::
  "json_builtin \<Rightarrow> ('w, 'e) documents \<Rightarrow> import_input \<Rightarrow> ref option \<Rightarrow> 'w state
     \<Rightarrow> ('e js_error + jsval) \<times> 'w state" where
  "import J this documents options s =
     (case default_options options s of
        (opts, s1) \<Rightarrow>
          (case invoke this (import_request J this documents opts) s1 of
             (Inl e, s2) \<Rightarrow> (Inl e, s2)
           | (Inr resultsInJSONLFormat, s2) \<Rightarrow>
               (case documents of
                  Documents_array ds \<Rightarrow> (import_results J resultsInJSONLFormat, s2)
                | Documents_text t \<Rightarrow> (Inr resultsInJSONLFormat, s2))))"

section \<open>\<^verbatim>\<open>createMany\<close> and \<^verbatim>\<open>export\<close>\<close>

definition createMany_warning :: string where
  "createMany_warning = ''createMany is deprecated and will be removed in a future version. Use import instead, which now takes both an array of documents or a JSONL string of documents''"

definition createMany ::
  "json_builtin \<Rightarrow> ('w, 'e) documents \<Rightarrow> jsval list \<Rightarrow> ref option \<Rightarrow> 'w state
     \<Rightarrow> ('e js_error + jsval) \<times> 'w state" where
  "createMany J this documents options s =
     (case default_options options s of
        (opts, s1) \<Rightarrow>
          import J this (Documents_array documents) (Some opts)
            (s1\<lparr>warnings := warnings s1 @ [createMany_warning]\<rparr>))"

definition export ::
  "('w, 'e) documents \<Rightarrow> ref option \<Rightarrow> 'w state \<Rightarrow> ('e js_error + jsval) \<times> 'w state" where
  "export this options s =
     (case default_options options s of
        (opts, s1) \<Rightarrow> invoke this (Get (endpointPath this (Some ''export'')) opts) s1)"

section \<open>The claims' vocabulary\<close>

text \<open>
  Three definitions that follow the wording of the specification rather than the code;
  the theorems below relate the code to them. \<open>join_lines\<close> puts one separator between
  consecutive lines and none after the last; \<open>line_of\<close> is what an element of the mapped
  array contributes to the join; \<open>success_false\<close> says that a result has a field
  \<^verbatim>\<open>success\<close> whose value is \<^verbatim>\<open>false\<close>.
\<close>

fun join_lines :: "string \<Rightarrow> string list \<Rightarrow> string" where
  "join_lines sep [] = []"
| "join_lines sep [l] = l"
| "join_lines sep (l # l' # ls) = l @ sep @ join_lines sep (l' # ls)"

definition line_of :: "string option \<Rightarrow> string" where
  "line_of e = (case e of None \<Rightarrow> [] | Some t \<Rightarrow> t)"

fun success_false :: "jsval \<Rightarrow> bool" where
  "success_false (JObj ps) = (map_of ps ''success'' = Some (JBool False))"
| "success_false v = False"

text \<open>
  Two outcomes in the words of the claims. \<open>no_document_outcome s out\<close>: the call
  ended with the error \<^verbatim>\<open>No document provided\<close>, made no request, logged nothing,
  left the state behind the transport alone and changed no object that existed before.
  \<open>sent_with_action this a document opts s out\<close>: the call made exactly one request, a
  \<^verbatim>\<open>post\<close> of \<open>document\<close> whose options object is not the caller's, has \<^verbatim>\<open>action\<close> set to
  \<open>a\<close>, has no own property \<^verbatim>\<open>__proto__\<close> and agrees with the caller's object on every
  other key; no object that existed before was changed, and the outcome is what the
  transport answered.
\<close>

definition no_document_outcome :: "'w state \<Rightarrow> ('e js_error + jsval) \<times> 'w state \<Rightarrow> bool" where
  "no_document_outcome s out \<longleftrightarrow>
     fst out = Inl (Error ''No document provided'')
     \<and> calls (snd out) = calls s
     \<and> world (snd out) = world s
     \<and> warnings (snd out) = warnings s
     \<and> take (length (heap s)) (heap (snd out)) = heap s"

definition sent_with_action ::
  "('w, 'e) documents \<Rightarrow> string \<Rightarrow> jsval \<Rightarrow> ref \<Rightarrow> 'w state \<Rightarrow> ('e js_error + jsval) \<times> 'w state \<Rightarrow> bool" where
  "sent_with_action this a document opts s out \<longleftrightarrow>
     (\<exists>sent.
        calls (snd out) = calls s @ [Post (endpointPath this None) document sent]
        \<and> sent \<noteq> opts
        \<and> map_of (own_properties (heap (snd out)) sent)
            = ((map_of (own_properties (heap s) opts))(''__proto__'' := None))(''action'' \<mapsto> JStr a)
        \<and> take (length (heap s)) (heap (snd out)) = heap s
        \<and> fst out =
            (case fst (apiCall this (heap (snd out)) (Post (endpointPath this None) document sent) (world s)) of
               Inl e \<Rightarrow> Inl (ApiCallError e)
             | Inr v \<Rightarrow> Inr v))"

section \<open>A reference instance of the parameters\<close>

text \<open>
  The general theorems hold for every \<open>JSON_parse\<close>, \<open>JSON_stringify\<close>, \<open>apiCall\<close> and
  \<open>endpointPath\<close>. To evaluate them on concrete calls, this section gives one instance:
  a reader and a printer for the JSON texts built from \<^verbatim>\<open>null\<close>, \<^verbatim>\<open>true\<close>, \<^verbatim>\<open>false\<close>,
  integers, strings with the two-character escapes, arrays and objects, and a transport
  that answers every request with a fixed body. A text with a fraction, an exponent or
  a \<^verbatim>\<open>\u\<close> escape is outside what the reader covers and is rejected; the theorems use it
  only on texts inside the fragment. The message of a rejection is the rejected text.
\<close>

definition DQ :: char where "DQ = CHR 0x22"
definition BS :: char where "BS = CHR 0x5C"

definition hex_char :: "nat \<Rightarrow> char" where
  "hex_char d = ''0123456789abcdef'' ! d"

definition quote_char :: "char \<Rightarrow> string" where
  "quote_char c =
     (if c = DQ then [BS, DQ]
      else if c = BS then [BS, BS]
      else if c = CHR 0x08 then [BS, CHR ''b'']
      else if c = CHR 0x0C then [BS, CHR ''f'']
      else if c = CHR 0x0A then [BS, CHR ''n'']
      else if c = CHR 0x0D then [BS, CHR ''r'']
      else if c = CHR 0x09 then [BS, CHR ''t'']
      else if (of_char c :: nat) < 32
        then [BS, CHR ''u'', CHR ''0'', CHR ''0'', hex_char (of_char c div 16), hex_char (of_char c mod 16)]
      else [c])"

definition quote_string :: "string \<Rightarrow> string" where
  "quote_string t = [DQ] @ concat (map quote_char t) @ [DQ]"

text \<open>
  Inside an array \<^verbatim>\<open>undefined\<close> is written \<^verbatim>\<open>null\<close>; a property whose value is
  \<^verbatim>\<open>undefined\<close> is left out; \<^verbatim>\<open>JSON.stringify(undefined)\<close> itself is \<^verbatim>\<open>undefined\<close>.
\<close>

fun serialize :: "jsval \<Rightarrow> string"
and serialize_member :: "string \<times> jsval \<Rightarrow> string list" where
  "serialize JUndefined = ''null''"
| "serialize JNull = ''null''"
| "serialize (JBool b) = (if b then ''true'' else ''false'')"
| "serialize (JNum n) = (if n < 0 then ''-'' @ string_of_nat (nat (- n)) else string_of_nat (nat n))"
| "serialize (JStr t) = quote_string t"
| "serialize (JArr vs) = ''['' @ join_lines '','' (map serialize vs) @ '']''"
| "serialize (JObj ps) = ''{'' @ join_lines '','' (concat (map serialize_member ps)) @ ''}''"
| "serialize_member (k, v) = (if v = JUndefined then [] else [quote_string k @ '':'' @ serialize v])"

definition json_stringify :: "jsval \<Rightarrow> string option" where
  "json_stringify v = (if v = JUndefined then None else Some (serialize v))"

definition is_ws :: "char \<Rightarrow> bool" where
  "is_ws c = (c = CHR '' '' \<or> c = CHR 0x09 \<or> c = CHR 0x0A \<or> c = CHR 0x0D)"

definition is_digit :: "char \<Rightarrow> bool" where
  "is_digit c = (c \<in> set ''0123456789'')"

definition digit_value :: "char \<Rightarrow> nat" where
  "digit_value c = (of_char c :: nat) - 48"

fun strip_prefix :: "string \<Rightarrow> string \<Rightarrow> string option" where
  "strip_prefix [] cs = Some cs"
| "strip_prefix (p # ps) [] = None"
| "strip_prefix (p # ps) (c # cs) = (if p = c then strip_prefix ps cs else None)"

definition unescape :: "char \<Rightarrow> char option" where
  "unescape e =
     (if e = DQ \<or> e = BS \<or> e = CHR ''/'' then Some e
      else if e = CHR ''b'' then Some (CHR 0x08)
      else if e = CHR ''f'' then Some (CHR 0x0C)
      else if e = CHR ''n'' then Some (CHR 0x0A)
      else if e = CHR ''r'' then Some (CHR 0x0D)
      else if e = CHR ''t'' then Some (CHR 0x09)
      else None)"

text \<open>The characters of a string up to its closing quote, and the text after it.\<close>

fun scan_string :: "string \<Rightarrow> (string \<times> string) option" where
  "scan_string [] = None"
| "scan_string (c # cs) =
     (if c = DQ then Some ([], cs)
      else if c = BS then
        (case cs of
           [] \<Rightarrow> None
         | e # cs' \<Rightarrow>
             (case unescape e of
                None \<Rightarrow> None
              | Some d \<Rightarrow> (case scan_string cs' of None \<Rightarrow> None | Some (t, r) \<Rightarrow> Some (d # t, r))))
      else if (of_char c :: nat) < 32 then None
      else (case scan_string cs of None \<Rightarrow> None | Some (t, r) \<Rightarrow> Some (c # t, r)))"

definition scan_number :: "string \<Rightarrow> (jsval \<times> string) option" where
  "scan_number cs =
     (let neg = (case cs of [] \<Rightarrow> False | c # r \<Rightarrow> c = CHR ''-'');
          cs1 = (if neg then tl cs else cs);
          ds = takeWhile is_digit cs1;
          r = dropWhile is_digit cs1;
          n = foldl (\<lambda>a d. 10 * a + digit_value d) 0 ds
      in if ds = [] \<or> (1 < length ds \<and> hd ds = CHR ''0'') then None
         else if r \<noteq> [] \<and> hd r \<in> set ''.eE'' then None
         else Some (JNum (if neg then - int n else int n), r))"

fun skip_ws :: "string \<Rightarrow> string" where
  "skip_ws [] = []"
| "skip_ws (c # cs) = (if is_ws c then skip_ws cs else c # cs)"

text \<open>
  The reader proper, with a bound on the number of nested calls; \<open>json_parse\<close> starts
  it with twice the length of the text plus two, and requires that only white space
  follows the value. A key written twice keeps its first place and its last value.
\<close>

fun scan_value :: "nat \<Rightarrow> string \<Rightarrow> (jsval \<times> string) option"
and scan_elements :: "nat \<Rightarrow> string \<Rightarrow> (jsval list \<times> string) option"
and scan_members :: "nat \<Rightarrow> string \<Rightarrow> (js_object \<times> string) option" where
  "scan_value 0 cs = None"
| "scan_value (Suc n) cs =
     (case skip_ws cs of
        [] \<Rightarrow> None
      | c # r \<Rightarrow>
          if c = CHR ''{'' then
            (case skip_ws r of
               [] \<Rightarrow> None
             | c' # r' \<Rightarrow>
                 if c' = CHR ''}'' then Some (JObj [], r')
                 else (case scan_members n (c' # r') of
                         None \<Rightarrow> None
                       | Some (ps, r'') \<Rightarrow>
                           Some (JObj (fold (\<lambda>(k, v). AList.update k v) ps []), r'')))
          else if c = CHR ''['' then
            (case skip_ws r of
               [] \<Rightarrow> None
             | c' # r' \<Rightarrow>
                 if c' = CHR '']'' then Some (JArr [], r')
                 else (case scan_elements n (c' # r') of
                         None \<Rightarrow> None
                       | Some (vs, r'') \<Rightarrow> Some (JArr vs, r'')))
          else if c = DQ then
            (case scan_string r of None \<Rightarrow> None | Some (t, r') \<Rightarrow> Some (JStr t, r'))
          else if c = CHR ''n'' then map_option (Pair JNull) (strip_prefix ''ull'' r)
          else if c = CHR ''t'' then map_option (Pair (JBool True)) (strip_prefix ''rue'' r)
          else if c = CHR ''f'' then map_option (Pair (JBool False)) (strip_prefix ''alse'' r)
          else scan_number (c # r))"
| "scan_elements 0 cs = None"
| "scan_elements (Suc n) cs =
     (case scan_value n cs of
        None \<Rightarrow> None
      | Some (v, r) \<Rightarrow>
          (case skip_ws r of
             [] \<Rightarrow> None
           | c # r' \<Rightarrow>
               if c = CHR '']'' then Some ([v], r')
               else if c = CHR '','' then
                 (case scan_elements n r' of None \<Rightarrow> None | Some (vs, r'') \<Rightarrow> Some (v # vs, r''))
               else None))"
| "scan_members 0 cs = None"
| "scan_members (Suc n) cs =
     (case skip_ws cs of
        [] \<Rightarrow> None
      | q # r \<Rightarrow>
          if q \<noteq> DQ then None
          else (case scan_string r of
                  None \<Rightarrow> None
                | Some (k, r1) \<Rightarrow>
                    (case skip_ws r1 of
                       [] \<Rightarrow> None
                     | c # r2 \<Rightarrow>
                         if c \<noteq> CHR '':'' then None
                         else (case scan_value n r2 of
                                 None \<Rightarrow> None
                               | Some (v, r3) \<Rightarrow>
                                   (case skip_ws r3 of
                                      [] \<Rightarrow> None
                                    | c' # r4 \<Rightarrow>
                                        if c' = CHR ''}'' then Some ([(k, v)], r4)
                                        else if c' = CHR '','' then
                                          (case scan_members n r4 of
                                             None \<Rightarrow> None
                                           | Some (ps, r5) \<Rightarrow> Some ((k, v) # ps, r5))
                                        else None)))))"

definition json_parse :: "string \<Rightarrow> string + jsval" where
  "json_parse t =
     (case scan_value (2 * length t + 2) t of
        None \<Rightarrow> Inl t
      | Some (v, r) \<Rightarrow> if skip_ws r = [] then Inr v else Inl t)"

definition json :: json_builtin where
  "json = \<lparr>JSON_parse = json_parse, JSON_stringify = json_stringify\<rparr>"

text \<open>
  A \<^verbatim>\<open>Documents\<close> object for the collection \<^verbatim>\<open>books\<close> whose transport resolves every
  request with \<open>body\<close>, and one whose transport rejects every request with \<open>e\<close>; the
  state behind them counts the requests served.
\<close>

definition books_path :: "string option \<Rightarrow> string" where
  "books_path operation =
     ''/collections/books/documents'' @ (case operation of None \<Rightarrow> [] | Some p \<Rightarrow> ''/'' @ p)"

definition replying :: "jsval \<Rightarrow> (nat, string) documents" where
  "replying body = \<lparr>endpointPath = books_path, apiCall = (\<lambda>h c w. (Inr body, Suc w))\<rparr>"

definition rejecting :: "string \<Rightarrow> (nat, string) documents" where
  "rejecting e = \<lparr>endpointPath = books_path, apiCall = (\<lambda>h c w. (Inl e, Suc w))\<rparr>"

definition initial :: "js_object list \<Rightarrow> nat state" where
  "initial h = \<lparr>heap = h, calls = [], warnings = [], world = 0\<rparr>"

section \<open>Joining and splitting lines\<close>

text \<open>
  The loop of \<^verbatim>\<open>join\<close> computes \<open>join_lines\<close>, and the scan of \<^verbatim>\<open>split\<close> is its inverse:
  joining the pieces of a text gives the text back, and splitting a join of lines free
  of the separator gives the lines back, provided there is at least one line.
\<close>

lemma Array_join_from_Suc:
  "Array_join_from sep (Suc k) es R = R @ concat (map (\<lambda>e. sep @ line_of e) es)"
  by (induction es arbitrary: k R) (simp_all add: line_of_def split: option.splits)

lemma concat_sep_join_lines:
  "join_lines sep (l # ls) = l @ concat (map (\<lambda>e. sep @ e) ls)"
  by (induction ls arbitrary: l) simp_all

lemma Array_join_join_lines:
  "Array_join sep es = join_lines sep (map line_of es)"
proof (cases es)
  case Nil
  then show ?thesis by (simp add: Array_join_def)
next
  case (Cons e es')
  have "Array_join sep (e # es') = line_of e @ concat (map (\<lambda>x. sep @ line_of x) es')"
    by (simp add: Array_join_def Array_join_from_Suc line_of_def split: option.splits)
  also have "\<dots> = line_of e @ concat (map (\<lambda>x. sep @ x) (map line_of es'))"
    by (simp add: comp_def)
  also have "\<dots> = join_lines sep (line_of e # map line_of es')"
    by (rule concat_sep_join_lines [symmetric])
  finally show ?thesis using Cons by simp
qed

lemma String_split_from_piece:
  "String_split_from c piece t = (piece @ hd (String_split_from c [] t)) # tl (String_split_from c [] t)"
proof (induction t arbitrary: piece)
  case Nil
  then show ?case by simp
next
  case (Cons x xs)
  show ?case
  proof (cases "x = c")
    case True
    then show ?thesis by simp
  next
    case False
    have "String_split_from c piece (x # xs) = String_split_from c (piece @ [x]) xs"
      using False by simp
    also have "\<dots> = ((piece @ [x]) @ hd (String_split_from c [] xs)) # tl (String_split_from c [] xs)"
      by (rule Cons.IH)
    finally have a: "String_split_from c piece (x # xs)
        = (piece @ x # hd (String_split_from c [] xs)) # tl (String_split_from c [] xs)"
      by simp
    have "String_split_from c [] (x # xs) = String_split_from c ([] @ [x]) xs"
      using False by simp
    also have "\<dots> = (([] @ [x]) @ hd (String_split_from c [] xs)) # tl (String_split_from c [] xs)"
      by (rule Cons.IH)
    finally have b: "String_split_from c [] (x # xs)
        = (x # hd (String_split_from c [] xs)) # tl (String_split_from c [] xs)"
      by simp
    show ?thesis by (simp only: a b list.sel append_Cons append_Nil)
  qed
qed

lemma String_split_Nil: "String_split c [] = [[]]"
  by (simp add: String_split_def)

lemma String_split_Cons:
  "String_split c (x # xs) =
     (if x = c then [] # String_split c xs
      else (x # hd (String_split c xs)) # tl (String_split c xs))"
  unfolding String_split_def
  using String_split_from_piece [of c "[x]" xs] by simp

lemma String_split_not_Nil: "String_split c t \<noteq> []"
  by (induction t) (simp_all add: String_split_Nil String_split_Cons)

lemma join_String_split: "join_lines [c] (String_split c t) = t"
proof (induction t)
  case Nil
  then show ?case by (simp add: String_split_Nil)
next
  case (Cons x xs)
  obtain l ls where s: "String_split c xs = l # ls"
    using String_split_not_Nil [of c xs] by (cases "String_split c xs") auto
  show ?case
  proof (cases "x = c")
    case True
    then show ?thesis using Cons s by (simp add: String_split_Cons)
  next
    case False
    have "join_lines [c] ((x # l) # ls) = x # join_lines [c] (l # ls)"
      by (cases ls) simp_all
    then show ?thesis using False Cons s by (simp add: String_split_Cons)
  qed
qed

lemma String_split_no_sep: "l \<in> set (String_split c t) \<Longrightarrow> c \<notin> set l"
proof (induction t arbitrary: l)
  case Nil
  then show ?case by (simp add: String_split_Nil)
next
  case (Cons x xs)
  obtain l' ls where s: "String_split c xs = l' # ls"
    using String_split_not_Nil [of c xs] by (cases "String_split c xs") auto
  have l': "c \<notin> set l'" and ls: "\<And>m. m \<in> set ls \<Longrightarrow> c \<notin> set m"
    using Cons.IH s by simp_all
  show ?case using Cons.prems s l' ls
    by (auto simp: String_split_Cons split: if_splits)
qed

lemma String_split_line: "c \<notin> set l \<Longrightarrow> String_split c l = [l]"
  by (induction l) (auto simp: String_split_Nil String_split_Cons)

lemma String_split_append:
  "c \<notin> set l \<Longrightarrow> String_split c (l @ c # t) = l # String_split c t"
  by (induction l) (auto simp: String_split_Cons)

lemma String_split_join:
  "ls \<noteq> [] \<Longrightarrow> (\<And>l. l \<in> set ls \<Longrightarrow> c \<notin> set l) \<Longrightarrow> String_split c (join_lines [c] ls) = ls"
proof (induction ls)
  case Nil
  then show ?case by simp
next
  case (Cons l ls)
  show ?case
  proof (cases ls)
    case Nil
    then show ?thesis using Cons.prems by (simp add: String_split_line)
  next
    case (Cons l' ls')
    then have "String_split c (join_lines [c] ls) = ls"
      using Cons.IH Cons.prems by simp
    then show ?thesis using Cons Cons.prems by (simp add: String_split_append)
  qed
qed


section \<open>Decoding and partitioning\<close>

text \<open>
  The map over the lines succeeds exactly when every line parses, and otherwise stops
  with the error of the first line that does not. The filter agrees with
  \<open>success_false\<close> on every list without \<^verbatim>\<open>null\<close> and \<^verbatim>\<open>undefined\<close>, and fails on the others.
\<close>

lemma map_parse_Inr_D:
  "(map_parse J ls :: 'e js_error + jsval list) = Inr vs \<Longrightarrow>
   list_all2 (\<lambda>l v. JSON_parse J l = Inr v) ls vs"
proof (induction ls arbitrary: vs)
  case Nil
  then show ?case by simp
next
  case (Cons l ls)
  from Cons.prems obtain v vs' where
    "JSON_parse J l = Inr v" "(map_parse J ls :: 'e js_error + jsval list) = Inr vs'" "vs = v # vs'"
    by (auto split: sum.splits)
  then show ?case using Cons.IH by simp
qed

lemma map_parse_Inr_I:
  "list_all2 (\<lambda>l v. JSON_parse J l = Inr v) ls vs \<Longrightarrow> map_parse J ls = Inr vs"
  by (induction ls vs rule: list_all2_induct) simp_all

lemma map_parse_find:
  "map_parse J ls =
     (case find (\<lambda>l. isl (JSON_parse J l)) ls of
        None \<Rightarrow> Inr (map (\<lambda>l. projr (JSON_parse J l)) ls)
      | Some l \<Rightarrow> Inl (SyntaxError (projl (JSON_parse J l))))"
proof (induction ls)
  case Nil
  then show ?case by simp
next
  case (Cons l ls)
  show ?case
  proof (cases "JSON_parse J l")
    case (Inl m)
    then show ?thesis by simp
  next
    case (Inr v)
    then show ?thesis using Cons.IH by (simp split: option.splits)
  qed
qed

lemma success_is_false_eq:
  "r \<noteq> JNull \<Longrightarrow> r \<noteq> JUndefined \<Longrightarrow> success_is_false r = Inr (success_false r)"
  by (cases r) simp_all

lemma filter_failed_eq:
  "JNull \<notin> set rs \<Longrightarrow> JUndefined \<notin> set rs \<Longrightarrow> filter_failed rs = Inr (filter success_false rs)"
  by (induction rs) (auto simp: success_is_false_eq)

lemma filter_failed_null:
  "filter_failed rs = Inr fs \<Longrightarrow> JNull \<notin> set rs \<and> JUndefined \<notin> set rs"
proof (induction rs arbitrary: fs)
  case Nil
  then show ?case by simp
next
  case (Cons r rs)
  then show ?case by (cases r) (auto split: sum.splits)
qed

section \<open>Requests and the state\<close>

lemma invoke_eq:
  "apiCall this (heap s) c (world s) = (r, w) \<Longrightarrow>
   invoke this c s =
     ((case r of Inl e \<Rightarrow> Inl (ApiCallError e) | Inr v \<Rightarrow> Inr v), s\<lparr>calls := calls s @ [c], world := w\<rparr>)"
  by (simp add: invoke_def split: sum.splits)

lemma invoke_state:
  "snd (invoke this c s) = s\<lparr>calls := calls s @ [c], world := snd (apiCall this (heap s) c (world s))\<rparr>"
  by (simp add: invoke_def split: sum.splits prod.splits)

lemma default_options_frame:
  "calls (snd (default_options options s)) = calls s"
  "warnings (snd (default_options options s)) = warnings s"
  "world (snd (default_options options s)) = world s"
  "take (length (heap s)) (heap (snd (default_options options s))) = heap s"
  "default_options (Some r) s = (r, s)"
  by (simp_all add: default_options_def new_object_def split: option.splits)

lemma import_eq:
  assumes "default_options options s = (opts, s1)"
    and "apiCall this (heap s1) (import_request J this documents opts) (world s1) = (r, w)"
  shows "import J this documents options s =
     ((case r of
         Inl e \<Rightarrow> Inl (ApiCallError e)
       | Inr body \<Rightarrow>
           (case documents of
              Documents_array ds \<Rightarrow> import_results J body
            | Documents_text t \<Rightarrow> Inr body)),
      s1\<lparr>calls := calls s1 @ [import_request J this documents opts], world := w\<rparr>)"
  by (simp add: import_def assms(1) invoke_eq [OF assms(2)] split: sum.splits import_input.splits)

lemma import_state:
  "snd (import J this documents options s) =
     snd (invoke this (import_request J this documents (fst (default_options options s)))
            (snd (default_options options s)))"
  by (simp add: import_def split: prod.splits sum.splits import_input.splits)

section \<open>\<^verbatim>\<open>Object.assign\<close> into a fresh object\<close>

text \<open>
  Copying a source into a different target that has no own \<^verbatim>\<open>__proto__\<close>, and that
  still inherits the accessor if the source has that key, changes the target only;
  afterwards the target maps every key of the source but \<^verbatim>\<open>__proto__\<close> to the source's
  value and has no own \<^verbatim>\<open>__proto__\<close>. So the object \<open>with_action\<close> returns is a new one that
  holds the caller's options without \<^verbatim>\<open>__proto__\<close> and with \<^verbatim>\<open>action\<close> overridden, and
  every object allocated before is as it was.
\<close>

lemma get_property_update_other:
  "src \<noteq> target \<Longrightarrow> get_property (h[target := x]) src k = get_property h src k"
  by (simp add: get_property_def own_properties_def)

lemma set_property_frame:
  "length (snd (set_property t k v (p, h))) = length h"
  "r \<noteq> t \<Longrightarrow> snd (set_property t k v (p, h)) ! r = h ! r"
  by (simp_all add: set_property_def split: prod.splits)

lemma set_property_proto:
  assumes "t < length h" and "map_of (h ! t) ''__proto__'' = None" and "accessor_inherited p"
  shows "snd (set_property t ''__proto__'' v (p, h)) = h"
  using assms by (simp add: set_property_def ordinary_set_def)

lemma set_property_other:
  assumes "t < length h" and "k \<noteq> ''__proto__''"
  shows "set_property t k v (p, h) = (p, h[t := AList.update k v (h ! t)])"
  using assms by (simp add: set_property_def ordinary_set_def)

lemma fold_set_property:
  assumes "t < length h" and "src \<noteq> t" and "distinct ks"
    and "map_of (h ! t) ''__proto__'' = None"
    and "''__proto__'' \<in> set ks \<Longrightarrow> accessor_inherited p"
  shows "length (snd (fold (\<lambda>k st'. set_property t k (get_property (snd st') src k) st') ks (p, h)))
           = length h
       \<and> (\<forall>r. r \<noteq> t \<longrightarrow>
             snd (fold (\<lambda>k st'. set_property t k (get_property (snd st') src k) st') ks (p, h)) ! r = h ! r)
       \<and> (\<forall>k. map_of (snd (fold (\<lambda>k st'. set_property t k (get_property (snd st') src k) st') ks (p, h)) ! t) k
             = (if k \<in> set ks \<and> k \<noteq> ''__proto__'' then Some (get_property h src k) else map_of (h ! t) k))"
  using assms
proof (induction ks arbitrary: p h)
  case Nil
  then show ?case by simp
next
  case (Cons k ks)
  let ?f = "\<lambda>k st'. set_property t k (get_property (snd st') src k) st'"
  obtain p1 h1 where s1: "set_property t k (get_property h src k) (p, h) = (p1, h1)"
    by (cases "set_property t k (get_property h src k) (p, h)")
  have len1: "length h1 = length h"
    using set_property_frame(1) [of t k "get_property h src k" p h] s1 by simp
  have oth1: "\<And>r. r \<noteq> t \<Longrightarrow> h1 ! r = h ! r"
    using set_property_frame(2) [of _ t k "get_property h src k" p h] s1 by simp
  have get1: "\<And>k'. get_property h1 src k' = get_property h src k'"
    using oth1 [of src] Cons.prems(2) len1
    by (simp add: get_property_def own_properties_def)
  have here: "map_of (h1 ! t) = (if k = ''__proto__'' then map_of (h ! t)
                                 else (map_of (h ! t))(k \<mapsto> get_property h src k))"
    and p1: "k \<noteq> ''__proto__'' \<Longrightarrow> p1 = p"
  proof -
    show "map_of (h1 ! t) = (if k = ''__proto__'' then map_of (h ! t)
                                 else (map_of (h ! t))(k \<mapsto> get_property h src k))"
    proof (cases "k = ''__proto__''")
      case True
      then have "accessor_inherited p" using Cons.prems(5) by simp
      then have "h1 = h"
        using set_property_proto [OF Cons.prems(1) Cons.prems(4), of p "get_property h src k"] s1 True
        by simp
      then show ?thesis using True by simp
    next
      case False
      then show ?thesis
        using set_property_other [OF Cons.prems(1) False, of "get_property h src k" p] s1 Cons.prems(1)
        by (auto simp: update_conv')
    qed
    show "k \<noteq> ''__proto__'' \<Longrightarrow> p1 = p"
      using set_property_other [OF Cons.prems(1), of k "get_property h src k" p] s1 by simp
  qed
  have t1: "t < length h1" using Cons.prems(1) len1 by simp
  have d1: "distinct ks" using Cons.prems(3) by simp
  have n1: "map_of (h1 ! t) ''__proto__'' = None"
    using here Cons.prems(4) by (simp split: if_splits)
  have a1: "''__proto__'' \<in> set ks \<Longrightarrow> accessor_inherited p1"
  proof -
    assume m: "''__proto__'' \<in> set ks"
    then have "k \<noteq> ''__proto__''" using Cons.prems(3) by auto
    then show "accessor_inherited p1" using p1 Cons.prems(5) m by simp
  qed
  have IH: "length (snd (fold ?f ks (p1, h1))) = length h1
       \<and> (\<forall>r. r \<noteq> t \<longrightarrow> snd (fold ?f ks (p1, h1)) ! r = h1 ! r)
       \<and> (\<forall>k'. map_of (snd (fold ?f ks (p1, h1)) ! t) k'
             = (if k' \<in> set ks \<and> k' \<noteq> ''__proto__'' then Some (get_property h1 src k') else map_of (h1 ! t) k'))"
    by (rule Cons.IH [OF t1 Cons.prems(2) d1 n1 a1])
  have f: "fold ?f (k # ks) (p, h) = fold ?f ks (p1, h1)"
    using s1 by simp
  have knot: "k \<notin> set ks" using Cons.prems(3) by simp
  show ?case
    unfolding f using IH len1 oth1 get1 here knot by auto
qed

lemma own_keys_props:
  "distinct (own_keys h r)" "set (own_keys h r) = fst ` set (own_properties h r)"
  by (simp_all add: own_keys_def)

lemma copy_properties_eq:
  assumes "t < length h" and "src \<noteq> t"
    and "map_of (h ! t) ''__proto__'' = None"
    and "''__proto__'' \<in> fst ` set (own_properties h src) \<Longrightarrow> accessor_inherited p"
  shows "length (snd (copy_properties t src (p, h))) = length h"
    and "r \<noteq> t \<Longrightarrow> snd (copy_properties t src (p, h)) ! r = h ! r"
    and "map_of (snd (copy_properties t src (p, h)) ! t)
           = map_of (h ! t) ++ (map_of (own_properties h src))(''__proto__'' := None)"
proof -
  let ?ks = "own_keys h src"
  have a: "''__proto__'' \<in> set ?ks \<Longrightarrow> accessor_inherited p"
    using assms(4) by (simp add: own_keys_props)
  note F = fold_set_property [OF assms(1,2) own_keys_props(1) [of h src] assms(3) a]
  show "length (snd (copy_properties t src (p, h))) = length h"
    using F by (simp add: copy_properties_def)
  show "r \<noteq> t \<Longrightarrow> snd (copy_properties t src (p, h)) ! r = h ! r"
    using F by (simp add: copy_properties_def)
  show "map_of (snd (copy_properties t src (p, h)) ! t)
           = map_of (h ! t) ++ (map_of (own_properties h src))(''__proto__'' := None)"
  proof
    fix k
    have m: "map_of (snd (copy_properties t src (p, h)) ! t) k
        = (if k \<in> set ?ks \<and> k \<noteq> ''__proto__'' then Some (get_property h src k) else map_of (h ! t) k)"
      using F by (simp add: copy_properties_def)
    show "map_of (snd (copy_properties t src (p, h)) ! t) k
        = (map_of (h ! t) ++ (map_of (own_properties h src))(''__proto__'' := None)) k"
    proof (cases "map_of (own_properties h src) k")
      case None
      then have "k \<notin> set ?ks"
        by (simp add: own_keys_props map_of_eq_None_iff)
      then show ?thesis using m None by (simp add: map_add_def)
    next
      case (Some v)
      then have "k \<in> set ?ks"
        by (metis own_keys_props(2) map_of_eq_None_iff option.distinct(1))
      then show ?thesis using m Some by (simp add: map_add_def get_property_def)
    qed
  qed
qed

lemma with_action_eq:
  assumes "opts < length h"
  shows "fst (with_action a opts h) = length h"
    and "length (snd (with_action a opts h)) = length h + 2"
    and "take (length h) (snd (with_action a opts h)) = h"
    and "map_of (own_properties (snd (with_action a opts h)) (length h))
           = ((map_of (own_properties h opts))(''__proto__'' := None))(''action'' \<mapsto> JStr a)"
proof -
  let ?t = "length h"
  let ?h2 = "h @ [[], [(''action'', JStr a)]]"
  obtain p3 h3 where c3: "copy_properties ?t opts (Object_prototype, ?h2) = (p3, h3)"
    by (cases "copy_properties ?t opts (Object_prototype, ?h2)")
  obtain p4 h4 where c4: "copy_properties ?t (Suc ?t) (p3, h3) = (p4, h4)"
    by (cases "copy_properties ?t (Suc ?t) (p3, h3)")
  have w: "with_action a opts h = (?t, h4)"
    by (simp add: with_action_def new_object_def Object_assign_def c3 c4)
  have t2: "?t < length ?h2" and o: "opts \<noteq> ?t"
    using assms by simp_all
  have e2: "map_of (?h2 ! ?t) ''__proto__'' = None"
    by (simp add: nth_append)
  have a2: "''__proto__'' \<in> fst ` set (own_properties ?h2 opts) \<Longrightarrow> accessor_inherited Object_prototype"
    by simp
  note C3 = copy_properties_eq [OF t2 o e2 a2]
  have l3: "length h3 = length h + 2"
    using C3(1) c3 by simp
  have o3: "\<And>r. r \<noteq> ?t \<Longrightarrow> h3 ! r = ?h2 ! r"
    using C3(2) c3 by simp
  have own2: "own_properties ?h2 opts = own_properties h opts"
    using assms by (simp add: own_properties_def nth_append)
  have m3: "map_of (h3 ! ?t) = (map_of (own_properties h opts))(''__proto__'' := None)"
    using C3(3) c3 own2 by (simp add: nth_append)
  have t3: "?t < length h3" and s: "Suc ?t \<noteq> ?t"
    using l3 by simp_all
  have e3: "map_of (h3 ! ?t) ''__proto__'' = None"
    by (simp add: m3)
  have src3: "own_properties h3 (Suc ?t) = [(''action'', JStr a)]"
    using o3 [of "Suc ?t"] l3 by (simp add: own_properties_def nth_append)
  have a3: "''__proto__'' \<in> fst ` set (own_properties h3 (Suc ?t)) \<Longrightarrow> accessor_inherited p3"
    by (simp add: src3)
  note C4 = copy_properties_eq [OF t3 s e3 a3]
  have l4: "length h4 = length h + 2"
    using C4(1) c4 l3 by simp
  have same: "h4 ! r = h ! r" if "r < length h" for r
  proof -
    have "h4 ! r = h3 ! r"
      using that C4(2) [of r] c4 by simp
    also have "\<dots> = ?h2 ! r"
      using that o3 [of r] by simp
    also have "\<dots> = h ! r"
      using that by (simp add: nth_append)
    finally show ?thesis .
  qed
  have m4: "map_of (h4 ! ?t)
      = ((map_of (own_properties h opts))(''__proto__'' := None))(''action'' \<mapsto> JStr a)"
    using C4(3) c4 m3 src3 by (simp add: map_add_def fun_eq_iff)
  show "fst (with_action a opts h) = length h"
    by (simp add: w)
  show "length (snd (with_action a opts h)) = length h + 2"
    using l4 by (simp add: w)
  show "take (length h) (snd (with_action a opts h)) = h"
    using l4 same by (simp add: w list_eq_iff_nth_eq)
  show "map_of (own_properties (snd (with_action a opts h)) (length h))
           = ((map_of (own_properties h opts))(''__proto__'' := None))(''action'' \<mapsto> JStr a)"
    using m4 l4 by (simp add: w own_properties_def)
qed

lemma post_with_action:
  assumes "opts < length (heap s1)"
    and "with_action a opts (heap s1) = (sent, h)"
  shows "sent_with_action this a document opts s1
           (invoke this (Post (endpointPath this None) document sent) (s1\<lparr>heap := h\<rparr>))"
proof -
  obtain r w where r: "apiCall this h (Post (endpointPath this None) document sent) (world s1) = (r, w)"
    by (cases "apiCall this h (Post (endpointPath this None) document sent) (world s1)")
  have sent: "sent = length (heap s1)"
    using with_action_eq(1) [OF assms(1), of a] assms(2) by simp
  have frame: "take (length (heap s1)) h = heap s1"
    using with_action_eq(3) [OF assms(1), of a] assms(2) by simp
  have props: "map_of (own_properties h sent)
      = ((map_of (own_properties (heap s1) opts))(''__proto__'' := None))(''action'' \<mapsto> JStr a)"
    using with_action_eq(4) [OF assms(1), of a] assms(2) sent by simp
  have i: "invoke this (Post (endpointPath this None) document sent) (s1\<lparr>heap := h\<rparr>) =
      ((case r of Inl e \<Rightarrow> Inl (ApiCallError e) | Inr v \<Rightarrow> Inr v),
       s1\<lparr>heap := h, calls := calls s1 @ [Post (endpointPath this None) document sent], world := w\<rparr>)"
    using invoke_eq [of this "s1\<lparr>heap := h\<rparr>" "Post (endpointPath this None) document sent" r w] r
    by simp
  have "calls (snd (invoke this (Post (endpointPath this None) document sent) (s1\<lparr>heap := h\<rparr>)))
          = calls s1 @ [Post (endpointPath this None) document sent]"
    by (simp add: i)
  moreover have "sent \<noteq> opts"
    using assms(1) sent by simp
  moreover have "map_of (own_properties (heap (snd (invoke this (Post (endpointPath this None) document sent) (s1\<lparr>heap := h\<rparr>)))) sent)
            = ((map_of (own_properties (heap s1) opts))(''__proto__'' := None))(''action'' \<mapsto> JStr a)"
    by (simp add: i props)
  moreover have "take (length (heap s1)) (heap (snd (invoke this (Post (endpointPath this None) document sent) (s1\<lparr>heap := h\<rparr>)))) = heap s1"
    by (simp add: i frame)
  moreover have "fst (invoke this (Post (endpointPath this None) document sent) (s1\<lparr>heap := h\<rparr>)) =
            (case fst (apiCall this (heap (snd (invoke this (Post (endpointPath this None) document sent) (s1\<lparr>heap := h\<rparr>))))
                        (Post (endpointPath this None) document sent) (world s1)) of
               Inl e \<Rightarrow> Inl (ApiCallError e)
             | Inr v \<Rightarrow> Inr v)"
    by (simp add: i r)
  ultimately show ?thesis
    unfolding sent_with_action_def by blast
qed

lemma default_options_snd:
  "calls (snd (default_options options s)) = calls s
   \<and> world (snd (default_options options s)) = world s
   \<and> warnings (snd (default_options options s)) = warnings s
   \<and> take (length (heap s)) (heap (snd (default_options options s))) = heap s"
  by (simp add: default_options_frame)

section \<open>Lemmas on \<^verbatim>\<open>import\<close>\<close>

lemma map_line_of_stringify:
  assumes "list_all2 (\<lambda>l v. JSON_parse J l = Inr v) ls vs"
    and "\<And>l v. l \<in> set ls \<Longrightarrow> JSON_parse J l = Inr v \<Longrightarrow> JSON_stringify J v = Some l"
  shows "map (\<lambda>v. line_of (JSON_stringify J v)) vs = ls"
  using assms
proof (induction ls vs rule: list_all2_induct)
  case Nil
  then show ?case by simp
next
  case (Cons l ls v vs)
  have "JSON_stringify J v = Some l"
    using Cons.hyps(1) Cons.prems by simp
  moreover have "map (\<lambda>v. line_of (JSON_stringify J v)) vs = ls"
    using Cons.IH Cons.prems by simp
  ultimately show ?case by (simp add: line_of_def)
qed

lemma encode_documents_join_lines:
  "encode_documents J documents = join_lines [LF] (map (\<lambda>d. line_of (JSON_stringify J d)) documents)"
  by (simp add: encode_documents_def Array_join_join_lines comp_def)

lemma import_results_eq:
  assumes "(decode_results J t :: 'e js_error + jsval list) = Inr results"
    and "JNull \<notin> set results" and "JUndefined \<notin> set results"
  shows "(import_results J (JStr t) :: 'e js_error + jsval) =
     (if \<exists>r \<in> set results. success_false r
      then Inl (ImportError
                 (import_message (length (filter (\<lambda>r. \<not> success_false r) results))
                    (length (filter success_false results)))
                 results)
      else Inr (JArr results))"
proof -
  have f: "(filter_failed results :: 'e js_error + jsval list) = Inr (filter success_false results)"
    using assms(2,3) by (rule filter_failed_eq)
  have n: "length results - length (filter success_false results)
             = length (filter (\<lambda>r. \<not> success_false r) results)"
    using sum_length_filter_compl [of success_false results] by simp
  have e: "(0 < length (filter success_false results)) = (\<exists>r \<in> set results. success_false r)"
    by (simp add: filter_empty_conv)
  show ?thesis
    unfolding import_results_def by (simp add: assms(1) f n e del: length_greater_0_conv)
qed

lemma invoke_warnings:
  "invoke this c (s\<lparr>warnings := ws\<rparr>) =
     (case invoke this c s of (r, s') \<Rightarrow> (r, s'\<lparr>warnings := ws\<rparr>))"
  by (simp add: invoke_def split: prod.splits sum.splits)

lemma import_Some_warnings:
  "import J this documents (Some opts) (s\<lparr>warnings := ws\<rparr>) =
     (case import J this documents (Some opts) s of (r, s') \<Rightarrow> (r, s'\<lparr>warnings := ws\<rparr>))"
  by (simp add: import_def default_options_frame invoke_warnings
      split: prod.splits sum.splits import_input.splits)

lemma import_keeps_warnings:
  "warnings (snd (import J this documents options s)) = warnings s"
  by (simp add: import_state invoke_state default_options_frame)

lemma import_default:
  "default_options options s = (opts, s1) \<Longrightarrow>
   import J this documents (Some opts) s1 = import J this documents options s"
  by (simp add: import_def default_options_frame)

section \<open>The claims\<close>

subsection \<open>C1: the outcome of a structured import\<close>

text \<open>
  Claim C1, as the code has it. Let a structured import get the text \<open>t\<close> from the
  transport, let \<open>t\<close> decode to \<open>results\<close>, and let no decoded result be \<^verbatim>\<open>null\<close> (nor
  \<^verbatim>\<open>undefined\<close>, which \<^verbatim>\<open>JSON.parse\<close> never yields). Then the call raises the
  \<^verbatim>\<open>ImportError\<close> exactly when some result has \<^verbatim>\<open>success: false\<close>; the error carries all
  of \<open>results\<close> in response order, and its message counts the results without
  \<^verbatim>\<open>success: false\<close> as imported and the others as failed, two numbers that add up to
  the number of results. When no result has \<^verbatim>\<open>success: false\<close> the call returns
  \<open>results\<close> as they are.
\<close>

theorem import_array_outcome:
  assumes "default_options options s = (opts, s1)"
    and "apiCall this (heap s1) (import_request J this (Documents_array documents) opts) (world s1)
         = (Inr (JStr t), w)"
    and "(decode_results J t :: 'e js_error + jsval list) = Inr results"
    and "JNull \<notin> set results" and "JUndefined \<notin> set results"
  shows "fst (import J (this :: ('w, 'e) documents) (Documents_array documents) options s) =
           (if \<exists>r \<in> set results. success_false r
            then Inl (ImportError
                       (import_message (length (filter (\<lambda>r. \<not> success_false r) results))
                          (length (filter success_false results)))
                       results)
            else Inr (JArr results))
         \<and> length (filter (\<lambda>r. \<not> success_false r) results)
             + length (filter success_false results) = length results"
proof -
  have "fst (import J this (Documents_array documents) options s) = import_results J (JStr t)"
    by (simp add: import_eq [OF assms(1,2)])
  moreover have "length (filter (\<lambda>r. \<not> success_false r) results)
             + length (filter success_false results) = length results"
    using sum_length_filter_compl [of success_false results] by simp
  ultimately show ?thesis
    using import_results_eq [OF assms(3,4,5)] by simp
qed

text \<open>
  Three documents, the second rejected by the service: the error lists the three
  results in order and reports two imported, one failed.
\<close>

theorem import_array_outcome_witness:
  \<open>(decode_results json
       (''{"success":true}'' @ [LF] @ ''{"success":false,"error":"bad title","document":"B","code":400}''
          @ [LF] @ ''{"success":true}'') :: string js_error + jsval list)
     = Inr [JObj [(''success'', JBool True)],
            JObj [(''success'', JBool False), (''error'', JStr ''bad title''),
                  (''document'', JStr ''B''), (''code'', JNum 400)],
            JObj [(''success'', JBool True)]]
   \<and> fst (import json
        (replying (JStr (''{"success":true}'' @ [LF]
            @ ''{"success":false,"error":"bad title","document":"B","code":400}''
            @ [LF] @ ''{"success":true}'')))
        (Documents_array [JObj [(''title'', JStr ''A'')], JObj [(''title'', JNum 7)], JObj [(''title'', JStr ''C'')]])
        None (initial []))
     = Inl (ImportError
         ''2 documents imported successfully, 1 documents failed during import. Use `error.importResults` from the raised exception to get a detailed error reason for each document.''
         [JObj [(''success'', JBool True)],
          JObj [(''success'', JBool False), (''error'', JStr ''bad title''),
                (''document'', JStr ''B''), (''code'', JNum 400)],
          JObj [(''success'', JBool True)]])\<close>
proof -
  let ?t = \<open>''{"success":true}'' @ [LF] @ ''{"success":false,"error":"bad title","document":"B","code":400}''
          @ [LF] @ ''{"success":true}''\<close>
  let ?rs = "[JObj [(''success'', JBool True)],
            JObj [(''success'', JBool False), (''error'', JStr ''bad title''),
                  (''document'', JStr ''B''), (''code'', JNum 400)],
            JObj [(''success'', JBool True)]]"
  let ?ds = "[JObj [(''title'', JStr ''A'')], JObj [(''title'', JNum 7)], JObj [(''title'', JStr ''C'')]]"
  have d: "default_options None (initial []) = (0, (initial [] :: nat state)\<lparr>heap := [[]]\<rparr>)"
    by (simp add: default_options_def new_object_def initial_def)
  have a: "apiCall (replying (JStr ?t)) (heap ((initial [] :: nat state)\<lparr>heap := [[]]\<rparr>))
             (import_request json (replying (JStr ?t)) (Documents_array ?ds) 0)
             (world ((initial [] :: nat state)\<lparr>heap := [[]]\<rparr>)) = (Inr (JStr ?t), 1)"
    by (simp add: replying_def initial_def)
  have r: "(decode_results json ?t :: string js_error + jsval list) = Inr ?rs"
    by code_simp
  have n: "JNull \<notin> set ?rs" "JUndefined \<notin> set ?rs"
    by simp_all
  show ?thesis
    using import_array_outcome [OF d a r n] r
    by (simp add: import_message_def digit_char_def)
qed

text \<open>
  Without the restriction C1 fails. The response below decodes to \<^verbatim>\<open>null\<close> followed by
  a failure; reading \<^verbatim>\<open>success\<close> of \<^verbatim>\<open>null\<close> throws, so the call ends with a
  \<^verbatim>\<open>TypeError\<close> and not with the \<^verbatim>\<open>ImportError\<close>.
\<close>

theorem import_null_result_counterexample:
  \<open>(decode_results json (''null'' @ [LF] @ ''{"success":false}'') :: string js_error + jsval list)
     = Inr [JNull, JObj [(''success'', JBool False)]]
   \<and> success_false (JObj [(''success'', JBool False)])
   \<and> fst (import json (replying (JStr (''null'' @ [LF] @ ''{"success":false}'')))
        (Documents_array [JObj [(''title'', JStr ''A'')], JObj [(''title'', JNum 7)]])
        None (initial []))
     = Inl TypeError\<close>
  by code_simp

subsection \<open>C2: import of text\<close>

text \<open>
  Claim C2. An import of text makes one request whose body is the text as given, and
  its outcome is the transport's: the body it resolved with, whatever that body is, or
  its rejection. It never raises the \<^verbatim>\<open>ImportError\<close>, and it does not depend on
  \<^verbatim>\<open>JSON.parse\<close> or \<^verbatim>\<open>JSON.stringify\<close>, so nothing is decoded or encoded.
\<close>

theorem import_text_passes_through:
  assumes "default_options options s = (opts, s1)"
    and "apiCall this (heap s1)
           (PerformRequest ''post'' (endpointPath this (Some ''import''))
              \<lparr>queryParameters = opts, bodyParameters = t,
               additionalHeaders = [(''Content-Type'', ''text/plain'')]\<rparr>) (world s1)
         = (r, w)"
  shows "import J this (Documents_text t) options s =
           ((case r of Inl e \<Rightarrow> Inl (ApiCallError e) | Inr body \<Rightarrow> Inr body),
            s1\<lparr>calls := calls s1 @
                   [PerformRequest ''post'' (endpointPath this (Some ''import''))
                      \<lparr>queryParameters = opts, bodyParameters = t,
                       additionalHeaders = [(''Content-Type'', ''text/plain'')]\<rparr>],
               world := w\<rparr>)
         \<and> (\<forall>message importResults.
               fst (import J this (Documents_text t) options s) \<noteq> Inl (ImportError message importResults))
         \<and> (\<forall>J'. import J' this (Documents_text t) options s = import J this (Documents_text t) options s)"
proof -
  have r: "\<And>K. apiCall this (heap s1) (import_request K this (Documents_text t) opts) (world s1) = (r, w)"
    using assms(2) by (simp add: import_request_def)
  show ?thesis
    by (simp add: import_eq [OF assms(1) r] import_request_def split: sum.splits)
qed

text \<open>
  A text whose second line is no record goes out unchanged, and a response that
  reports a failure comes back as text.
\<close>

theorem import_text_passes_through_witness:
  \<open>import json (replying (JStr ''{"success":false}''))
      (Documents_text (''{"title": "A"}'' @ [LF] @ ''not a record'')) None (initial [])
    = (Inr (JStr ''{"success":false}''),
       \<lparr>heap = [[]],
        calls = [PerformRequest ''post'' ''/collections/books/documents/import''
                   \<lparr>queryParameters = 0,
                    bodyParameters = ''{"title": "A"}'' @ [LF] @ ''not a record'',
                    additionalHeaders = [(''Content-Type'', ''text/plain'')]\<rparr>],
        warnings = [], world = 1\<rparr>)\<close>
proof -
  let ?t = \<open>''{"title": "A"}'' @ [LF] @ ''not a record''\<close>
  let ?D = \<open>replying (JStr ''{"success":false}'')\<close>
  have d: "default_options None (initial []) = (0, (initial [] :: nat state)\<lparr>heap := [[]]\<rparr>)"
    by (simp add: default_options_def new_object_def initial_def)
  have a: \<open>apiCall ?D (heap ((initial [] :: nat state)\<lparr>heap := [[]]\<rparr>))
             (PerformRequest ''post'' (endpointPath ?D (Some ''import''))
                \<lparr>queryParameters = 0, bodyParameters = ?t,
                 additionalHeaders = [(''Content-Type'', ''text/plain'')]\<rparr>)
             (world ((initial [] :: nat state)\<lparr>heap := [[]]\<rparr>))
           = (Inr (JStr ''{"success":false}''), 1)\<close>
    by (simp add: replying_def initial_def)
  show ?thesis
    using import_text_passes_through [OF d a, of json]
    by (simp add: replying_def initial_def books_path_def)
qed

subsection \<open>C3: round trips of the line codec\<close>

text \<open>
  Claim C3, as the code has it. If a text decodes to \<open>vs\<close> and each of its lines is
  exactly what \<^verbatim>\<open>JSON.stringify\<close> writes for the value the line parses to, then encoding
  \<open>vs\<close> gives the text back. If \<open>records\<close> is not empty and each record is written as a
  line without a newline that parses back to the record, then decoding the encoding of
  \<open>records\<close> gives \<open>records\<close> back.
\<close>

theorem codec_round_trips:
  "((decode_results J t :: 'e js_error + jsval list) = Inr vs
      \<and> (\<forall>l \<in> set (String_split LF t). \<forall>v. JSON_parse J l = Inr v \<longrightarrow> JSON_stringify J v = Some l)
     \<longrightarrow> encode_documents J vs = t)
   \<and> (records \<noteq> []
      \<and> (\<forall>r \<in> set records. \<exists>l. JSON_stringify J r = Some l \<and> LF \<notin> set l \<and> JSON_parse J l = Inr r)
     \<longrightarrow> (decode_results J (encode_documents J records) :: 'e js_error + jsval list) = Inr records)"
proof (intro conjI impI)
  assume a: "(decode_results J t :: 'e js_error + jsval list) = Inr vs
      \<and> (\<forall>l \<in> set (String_split LF t). \<forall>v. JSON_parse J l = Inr v \<longrightarrow> JSON_stringify J v = Some l)"
  then have "list_all2 (\<lambda>l v. JSON_parse J l = Inr v) (String_split LF t) vs"
    by (auto simp: decode_results_def dest: map_parse_Inr_D)
  then have "map (\<lambda>v. line_of (JSON_stringify J v)) vs = String_split LF t"
    using a by (intro map_line_of_stringify) auto
  then show "encode_documents J vs = t"
    by (simp add: encode_documents_join_lines join_String_split)
next
  assume b: "records \<noteq> []
      \<and> (\<forall>r \<in> set records. \<exists>l. JSON_stringify J r = Some l \<and> LF \<notin> set l \<and> JSON_parse J l = Inr r)"
  let ?ls = "map (\<lambda>d. line_of (JSON_stringify J d)) records"
  have free: "\<And>l. l \<in> set ?ls \<Longrightarrow> LF \<notin> set l"
    using b by (auto simp: line_of_def)
  have "String_split LF (join_lines [LF] ?ls) = ?ls"
    using b free by (intro String_split_join) simp_all
  moreover have "list_all2 (\<lambda>l v. JSON_parse J l = Inr v) ?ls records"
    using b by (auto simp: list_all2_map1 line_of_def intro!: list_all2_same[THEN iffD2])
  ultimately show "(decode_results J (encode_documents J records) :: 'e js_error + jsval list) = Inr records"
    by (simp add: decode_results_def encode_documents_join_lines map_parse_Inr_I)
qed

text \<open>
  Two records written and read back, and their two lines read and written back.
\<close>

theorem codec_round_trips_witness:
  \<open>encode_documents json [JObj [(''id'', JNum 1)], JObj [(''success'', JBool True)]]
     = ''{"id":1}'' @ [LF] @ ''{"success":true}''
   \<and> (decode_results json (encode_documents json [JObj [(''id'', JNum 1)], JObj [(''success'', JBool True)]])
        :: string js_error + jsval list)
     = Inr [JObj [(''id'', JNum 1)], JObj [(''success'', JBool True)]]\<close>
proof -
  let ?l1 = \<open>''{"id":1}''\<close> and ?l2 = \<open>''{"success":true}''\<close>
  let ?v1 = "JObj [(''id'', JNum 1)]" and ?v2 = "JObj [(''success'', JBool True)]"
  have sp: "String_split LF (?l1 @ [LF] @ ?l2) = [?l1, ?l2]"
    by code_simp
  have p: "JSON_parse json ?l1 = Inr ?v1" "JSON_parse json ?l2 = Inr ?v2"
    by code_simp+
  have q: "JSON_stringify json ?v1 = Some ?l1" "JSON_stringify json ?v2 = Some ?l2"
    by code_simp+
  have f: "LF \<notin> set ?l1" "LF \<notin> set ?l2"
    by (simp_all add: LF_def)
  have dec: "(decode_results json (?l1 @ [LF] @ ?l2) :: string js_error + jsval list) = Inr [?v1, ?v2]"
    by (simp only: decode_results_def sp map_parse.simps p sum.case)
  have h1: "(decode_results json (?l1 @ [LF] @ ?l2) :: string js_error + jsval list) = Inr [?v1, ?v2]
      \<and> (\<forall>l \<in> set (String_split LF (?l1 @ [LF] @ ?l2)). \<forall>v. JSON_parse json l = Inr v \<longrightarrow> JSON_stringify json v = Some l)"
    using dec p q by (simp only: sp) auto
  have h2: "[?v1, ?v2] \<noteq> []
      \<and> (\<forall>r \<in> set [?v1, ?v2]. \<exists>l. JSON_stringify json r = Some l \<and> LF \<notin> set l \<and> JSON_parse json l = Inr r)"
    using p q f by auto
  show ?thesis
    using codec_round_trips [of json "?l1 @ [LF] @ ?l2" "[?v1, ?v2]" "[?v1, ?v2]", where 'e = string] h1 h2
    by blast
qed

text \<open>
  Both laws of C3 fail as stated. The empty sequence is encoded as the empty text,
  whose only line is empty and does not parse. A line with a space after the colon
  parses, and is written back without the space.
\<close>

theorem codec_round_trips_counterexample:
  \<open>(decode_results json (encode_documents json []) :: string js_error + jsval list)
     = Inl (SyntaxError [])
   \<and> (decode_results json ''{"id": 1}'' :: string js_error + jsval list) = Inr [JObj [(''id'', JNum 1)]]
   \<and> encode_documents json [JObj [(''id'', JNum 1)]] = ''{"id":1}''\<close>
  by code_simp

subsection \<open>C4: decoding a response\<close>

text \<open>
  Claim C4, as the code has it. Decoding splits the text at every newline (joining
  the pieces with newlines gives the text back, and no piece holds a newline) and
  parses the lines one by one from the first. If every line parses, the result is the
  list of their values; otherwise the whole decode fails, with the \<^verbatim>\<open>SyntaxError\<close> that
  \<^verbatim>\<open>JSON.parse\<close> raised on the first line that does not parse, and no values are
  returned. The error depends on that line alone.
\<close>

theorem decode_results_first_malformed:
  "(decode_results J t :: 'e js_error + jsval list) =
     (case find (\<lambda>l. isl (JSON_parse J l)) (String_split LF t) of
        None \<Rightarrow> Inr (map (\<lambda>l. projr (JSON_parse J l)) (String_split LF t))
      | Some l \<Rightarrow> Inl (SyntaxError (projl (JSON_parse J l))))
   \<and> join_lines [LF] (String_split LF t) = t
   \<and> list_all (\<lambda>l. LF \<notin> set l) (String_split LF t)"
  by (simp add: decode_results_def map_parse_find join_String_split list_all_iff String_split_no_sep)

text \<open>
  Of two malformed lines the first decides the error.
\<close>

theorem decode_results_first_malformed_witness:
  \<open>(decode_results json (''{"success":true}'' @ [LF] @ ''{'' @ [LF] @ ''[1,'') :: string js_error + jsval list)
     = Inl (SyntaxError ''{'')
   \<and> String_split LF (''{"success":true}'' @ [LF] @ ''{'' @ [LF] @ ''[1,'') = [''{"success":true}'', ''{'', ''[1,'']\<close>
proof -
  let ?t = \<open>''{"success":true}'' @ [LF] @ ''{'' @ [LF] @ ''[1,''\<close>
  have sp: \<open>String_split LF ?t = [''{"success":true}'', ''{'', ''[1,'']\<close>
    by code_simp
  have f: "find (\<lambda>l. isl (JSON_parse json l)) (String_split LF ?t) = Some ''{''"
    by code_simp
  have p: "JSON_parse json ''{'' = Inl ''{''"
    by code_simp
  have "(decode_results json ?t :: string js_error + jsval list) = Inl (SyntaxError ''{'')"
    using decode_results_first_malformed [of json ?t, where 'e = string]
    by (simp only: f option.case p sum.sel)
  then show ?thesis
    using sp by (rule conjI)
qed

text \<open>
  The error does not name the line. The same malformed line, placed second in one
  response and first in another, fails both decodes with the same error.
\<close>

theorem malformed_line_index_counterexample:
  \<open>(decode_results json (''{"success":true}'' @ [LF] @ ''{'') :: string js_error + jsval list)
     = Inl (SyntaxError ''{'')
   \<and> (decode_results json (''{'' @ [LF] @ ''{"success":true}'') :: string js_error + jsval list)
     = Inl (SyntaxError ''{'')
   \<and> String_split LF (''{"success":true}'' @ [LF] @ ''{'') ! 1 = ''{''
   \<and> String_split LF (''{'' @ [LF] @ ''{"success":true}'') ! 0 = ''{''\<close>
  by code_simp

subsection \<open>C5: export\<close>

text \<open>
  Claim C5. An export hands exactly one request to the transport, a \<^verbatim>\<open>get\<close> of the
  export path with the options, and its outcome is the body the transport resolved
  with, untouched, or the transport's rejection.
\<close>

theorem export_returns_body:
  assumes "default_options options s = (opts, s1)"
    and "apiCall this (heap s1) (Get (endpointPath this (Some ''export'')) opts) (world s1) = (r, w)"
  shows "export this options s =
           ((case r of Inl e \<Rightarrow> Inl (ApiCallError e) | Inr body \<Rightarrow> Inr body),
            s1\<lparr>calls := calls s1 @ [Get (endpointPath this (Some ''export'')) opts], world := w\<rparr>)
         \<and> calls (snd (export this options s))
             = calls s @ [Get (endpointPath this (Some ''export'')) opts]"
proof -
  have "calls s1 = calls s"
    using default_options_frame(1) [of options s] assms(1) by simp
  then show ?thesis
    by (simp add: export_def assms(1) invoke_eq [OF assms(2)])
qed

text \<open>
  A two-line body comes back as it is, after one request; a rejection is passed on.
\<close>

theorem export_returns_body_witness:
  \<open>export (replying (JStr (''{"title":"A"}'' @ [LF] @ ''{"title":"B"}''))) None (initial [])
    = (Inr (JStr (''{"title":"A"}'' @ [LF] @ ''{"title":"B"}'')),
       \<lparr>heap = [[]], calls = [Get ''/collections/books/documents/export'' 0],
        warnings = [], world = 1\<rparr>)
   \<and> fst (export (rejecting ''ObjectNotFound'') None (initial [])) = Inl (ApiCallError ''ObjectNotFound'')\<close>
proof -
  let ?b = \<open>JStr (''{"title":"A"}'' @ [LF] @ ''{"title":"B"}'')\<close>
  have d: "default_options None (initial []) = (0, (initial [] :: nat state)\<lparr>heap := [[]]\<rparr>)"
    by (simp add: default_options_def new_object_def initial_def)
  have a: "apiCall (replying ?b) (heap ((initial [] :: nat state)\<lparr>heap := [[]]\<rparr>))
             (Get (endpointPath (replying ?b) (Some ''export'')) 0)
             (world ((initial [] :: nat state)\<lparr>heap := [[]]\<rparr>)) = (Inr ?b, 1)"
    by (simp add: replying_def initial_def)
  have b: "apiCall (rejecting ''ObjectNotFound'') (heap ((initial [] :: nat state)\<lparr>heap := [[]]\<rparr>))
             (Get (endpointPath (rejecting ''ObjectNotFound'') (Some ''export'')) 0)
             (world ((initial [] :: nat state)\<lparr>heap := [[]]\<rparr>)) = (Inl ''ObjectNotFound'', 1)"
    by (simp add: rejecting_def initial_def)
  show ?thesis
    using export_returns_body [OF d a] export_returns_body [OF d b]
    by (simp add: replying_def initial_def books_path_def)
qed

subsection \<open>C6: the body of a structured import\<close>

text \<open>
  Claim C6. A structured import makes one request, whose body is the encodings of the
  documents in input order with one newline between consecutive encodings and none
  after the last. When there is a document and no encoding holds a newline, splitting
  the body at the newlines gives exactly the encodings back.
\<close>

theorem import_sends_joined_lines:
  "calls (snd (import J this (Documents_array documents) options s)) =
     calls s @
     [PerformRequest ''post'' (endpointPath this (Some ''import''))
        \<lparr>queryParameters = fst (default_options options s),
         bodyParameters = join_lines [LF] (map (\<lambda>d. line_of (JSON_stringify J d)) documents),
         additionalHeaders = [(''Content-Type'', ''text/plain'')]\<rparr>]
   \<and> (documents \<noteq> [] \<and> list_all (\<lambda>d. LF \<notin> set (line_of (JSON_stringify J d))) documents \<longrightarrow>
        String_split LF (join_lines [LF] (map (\<lambda>d. line_of (JSON_stringify J d)) documents))
          = map (\<lambda>d. line_of (JSON_stringify J d)) documents)"
proof -
  have "calls (snd (import J this (Documents_array documents) options s)) =
     calls s @ [import_request J this (Documents_array documents) (fst (default_options options s))]"
    by (simp add: import_state invoke_state default_options_frame)
  then have first: "calls (snd (import J this (Documents_array documents) options s)) =
     calls s @
     [PerformRequest ''post'' (endpointPath this (Some ''import''))
        \<lparr>queryParameters = fst (default_options options s),
         bodyParameters = join_lines [LF] (map (\<lambda>d. line_of (JSON_stringify J d)) documents),
         additionalHeaders = [(''Content-Type'', ''text/plain'')]\<rparr>]"
    by (simp add: import_request_def encode_documents_join_lines)
  have second: "String_split LF (join_lines [LF] (map (\<lambda>d. line_of (JSON_stringify J d)) documents))
          = map (\<lambda>d. line_of (JSON_stringify J d)) documents"
    if "documents \<noteq> []" and "list_all (\<lambda>d. LF \<notin> set (line_of (JSON_stringify J d))) documents"
    using that by (intro String_split_join) (auto simp: list_all_iff)
  show ?thesis using first second by blast
qed

text \<open>
  Two documents make a body of two lines.
\<close>

theorem import_sends_joined_lines_witness:
  \<open>calls (snd (import json (replying (JStr ''{"success":true}''))
      (Documents_array [JObj [(''title'', JStr ''A'')], JObj [(''title'', JStr ''B''), (''pages'', JNum 12)]])
      None (initial [])))
    = [PerformRequest ''post'' ''/collections/books/documents/import''
         \<lparr>queryParameters = 0,
          bodyParameters = ''{"title":"A"}'' @ [LF] @ ''{"title":"B","pages":12}'',
          additionalHeaders = [(''Content-Type'', ''text/plain'')]\<rparr>]
   \<and> String_split LF (''{"title":"A"}'' @ [LF] @ ''{"title":"B","pages":12}'')
       = [''{"title":"A"}'', ''{"title":"B","pages":12}'']\<close>
proof -
  let ?A = "JObj [(''title'', JStr ''A'')]" and ?B = "JObj [(''title'', JStr ''B''), (''pages'', JNum 12)]"
  let ?D = \<open>replying (JStr ''{"success":true}'')\<close>
  have q: \<open>line_of (JSON_stringify json ?A) = ''{"title":"A"}''\<close>
    \<open>line_of (JSON_stringify json ?B) = ''{"title":"B","pages":12}''\<close>
    by code_simp+
  have f: \<open>LF \<notin> set ''{"title":"A"}''\<close> \<open>LF \<notin> set ''{"title":"B","pages":12}''\<close>
    by (simp_all add: LF_def)
  have d: "fst (default_options None (initial [] :: nat state)) = 0"
    by (simp add: default_options_def new_object_def initial_def)
  have c: "calls (initial [] :: nat state) = []"
    by (simp add: initial_def)
  have e: "endpointPath ?D (Some ''import'') = ''/collections/books/documents/import''"
    by (simp add: replying_def books_path_def)
  have h: "[?A, ?B] \<noteq> [] \<and> list_all (\<lambda>d. LF \<notin> set (line_of (JSON_stringify json d))) [?A, ?B]"
    using f by (simp add: q)
  show ?thesis
    using import_sends_joined_lines [of json ?D "[?A, ?B]" None "initial []"] h
    by (simp add: q d c e)
qed

subsection \<open>C7: which results count as failed\<close>

text \<open>
  Claim C7, as the code has it. Among decoded results none of which is \<^verbatim>\<open>null\<close> (nor
  \<^verbatim>\<open>undefined\<close>), the failed ones are exactly those with a field \<^verbatim>\<open>success\<close> equal to
  \<^verbatim>\<open>false\<close>, and the number reported as imported is the number of all the others.
\<close>

theorem failed_iff_success_false:
  "JNull \<notin> set results \<and> JUndefined \<notin> set results \<longrightarrow>
     (filter_failed results :: 'e js_error + jsval list) = Inr (filter success_false results)
     \<and> length results - length (filter success_false results)
         = length (filter (\<lambda>r. \<not> success_false r) results)"
proof -
  have "length (filter success_false results) + length (filter (\<lambda>r. \<not> success_false r) results)
          = length results"
    by (rule sum_length_filter_compl)
  then show ?thesis by (auto simp: filter_failed_eq)
qed

text \<open>
  Of six results only the one with \<^verbatim>\<open>success: false\<close> is failed: not the one whose
  \<^verbatim>\<open>success\<close> is the string \<^verbatim>\<open>false\<close>, not the one without the field, not an array or
  a boolean.
\<close>

theorem failed_iff_success_false_witness:
  \<open>(filter_failed
      [JObj [(''success'', JBool True)],
       JObj [(''success'', JBool False), (''error'', JStr ''bad title''), (''code'', JNum 400)],
       JObj [(''success'', JStr ''false'')],
       JObj [(''error'', JStr ''no success field'')],
       JArr [JBool False],
       JBool False] :: string js_error + jsval list)
    = Inr [JObj [(''success'', JBool False), (''error'', JStr ''bad title''), (''code'', JNum 400)]]\<close>
proof -
  let ?rs = "[JObj [(''success'', JBool True)],
       JObj [(''success'', JBool False), (''error'', JStr ''bad title''), (''code'', JNum 400)],
       JObj [(''success'', JStr ''false'')],
       JObj [(''error'', JStr ''no success field'')],
       JArr [JBool False],
       JBool False]"
  have n: "JNull \<notin> set ?rs \<and> JUndefined \<notin> set ?rs"
    by simp
  show ?thesis
    using failed_iff_success_false [of ?rs, where 'e = string] n by simp
qed

text \<open>
  A result \<^verbatim>\<open>null\<close> has no field \<^verbatim>\<open>success\<close>, yet it does not count as a success: the
  partition throws, and so does the import.
\<close>

theorem null_result_partition_counterexample:
  \<open>(decode_results json ''null'' :: string js_error + jsval list) = Inr [JNull]
   \<and> \<not> success_false JNull
   \<and> (filter_failed [JNull] :: string js_error + jsval list) = Inl TypeError
   \<and> fst (import json (replying (JStr ''null'')) (Documents_array [JObj [(''title'', JStr ''A'')]])
        None (initial []))
     = Inl TypeError\<close>
  by code_simp

subsection \<open>C8: \<^verbatim>\<open>createMany\<close>\<close>

text \<open>
  Claim C8. \<^verbatim>\<open>createMany\<close> ends with the outcome of \<^verbatim>\<open>import\<close> on the same array and
  options, and in the state \<^verbatim>\<open>import\<close> ends in but for one warning more in the log, the
  deprecation notice; \<^verbatim>\<open>import\<close> itself logs nothing.
\<close>

theorem createMany_is_import:
  "createMany J this documents options s =
     (case import J this (Documents_array documents) options s of
        (r, s') \<Rightarrow> (r, s'\<lparr>warnings := warnings s @ [createMany_warning]\<rparr>))
   \<and> warnings (snd (import J this (Documents_array documents) options s)) = warnings s"
proof -
  obtain opts s1 where d: "default_options options s = (opts, s1)"
    by (cases "default_options options s")
  have w: "warnings s1 = warnings s"
    using default_options_frame(2) [of options s] d by simp
  show ?thesis
    by (simp add: createMany_def d w import_Some_warnings import_default [OF d] import_keeps_warnings)
qed

text \<open>
  One document imported through \<^verbatim>\<open>createMany\<close>: the results, one request, one warning.
\<close>

theorem createMany_is_import_witness:
  \<open>createMany json (replying (JStr ''{"success":true}'')) [JObj [(''title'', JStr ''A'')]] None (initial [])
    = (Inr (JArr [JObj [(''success'', JBool True)]]),
       \<lparr>heap = [[]],
        calls = [PerformRequest ''post'' ''/collections/books/documents/import''
                   \<lparr>queryParameters = 0, bodyParameters = ''{"title":"A"}'',
                    additionalHeaders = [(''Content-Type'', ''text/plain'')]\<rparr>],
        warnings = [createMany_warning], world = 1\<rparr>)\<close>
proof -
  have i: \<open>import json (replying (JStr ''{"success":true}'')) (Documents_array [JObj [(''title'', JStr ''A'')]])
             None (initial [])
    = (Inr (JArr [JObj [(''success'', JBool True)]]),
       \<lparr>heap = [[]],
        calls = [PerformRequest ''post'' ''/collections/books/documents/import''
                   \<lparr>queryParameters = 0, bodyParameters = ''{"title":"A"}'',
                    additionalHeaders = [(''Content-Type'', ''text/plain'')]\<rparr>],
        warnings = [], world = 1\<rparr>)\<close>
    by code_simp
  show ?thesis
    using createMany_is_import [of json \<open>replying (JStr ''{"success":true}'')\<close>
        "[JObj [(''title'', JStr ''A'')]]" None "initial []"]
    by (simp only: i) (simp add: initial_def)
qed

subsection \<open>C9: the options of \<^verbatim>\<open>upsert\<close> and \<^verbatim>\<open>update\<close>\<close>

text \<open>
  Claim C9, as the code has it. Given a document that is not falsy and options that
  refer to an existing object, \<^verbatim>\<open>upsert\<close> and \<^verbatim>\<open>update\<close> each make one request, with a new
  options object that has \<^verbatim>\<open>action\<close> set to \<^verbatim>\<open>upsert\<close> or \<^verbatim>\<open>update\<close>, whatever the caller
  gave for it, and every other own key of the caller's object but \<^verbatim>\<open>__proto__\<close> with
  the caller's value; an own \<^verbatim>\<open>__proto__\<close> of the caller's object is not passed on. The
  caller's object, like every object that existed before the call, is unchanged.
\<close>

theorem upsert_update_set_action:
  assumes "\<not> falsy document"
    and "default_options options s = (opts, s1)"
    and "opts < length (heap s1)"
  shows "sent_with_action this ''upsert'' document opts s1 (upsert this document options s)
       \<and> sent_with_action this ''update'' document opts s1 (update this document options s)"
proof
  obtain u h where u: "with_action ''upsert'' opts (heap s1) = (u, h)"
    by (cases "with_action ''upsert'' opts (heap s1)")
  have "upsert this document options s =
          invoke this (Post (endpointPath this None) document u) (s1\<lparr>heap := h\<rparr>)"
    using assms(1) by (simp add: upsert_def assms(2) u)
  then show "sent_with_action this ''upsert'' document opts s1 (upsert this document options s)"
    using post_with_action [OF assms(3) u, of this document] by simp
next
  obtain u h where u: "with_action ''update'' opts (heap s1) = (u, h)"
    by (cases "with_action ''update'' opts (heap s1)")
  have "update this document options s =
          invoke this (Post (endpointPath this None) document u) (s1\<lparr>heap := h\<rparr>)"
    using assms(1) by (simp add: update_def assms(2) u)
  then show "sent_with_action this ''update'' document opts s1 (update this document options s)"
    using post_with_action [OF assms(3) u, of this document] by simp
qed

text \<open>
  The caller asks for \<^verbatim>\<open>action: create\<close>; the request carries \<^verbatim>\<open>action: upsert\<close> and
  the caller's \<^verbatim>\<open>dirty_values\<close>, and the caller's object still says \<^verbatim>\<open>create\<close>.
\<close>

theorem upsert_update_set_action_witness:
  \<open>sent_with_action (replying (JObj [(''title'', JStr ''A'')])) ''upsert'' (JObj [(''title'', JStr ''A'')]) 0
      (initial [[(''action'', JStr ''create''), (''dirty_values'', JStr ''drop'')]])
      (upsert (replying (JObj [(''title'', JStr ''A'')])) (JObj [(''title'', JStr ''A'')]) (Some 0)
         (initial [[(''action'', JStr ''create''), (''dirty_values'', JStr ''drop'')]]))
   \<and> sent_with_action (replying (JObj [(''title'', JStr ''A'')])) ''update'' (JObj [(''title'', JStr ''A'')]) 0
      (initial [[(''action'', JStr ''create''), (''dirty_values'', JStr ''drop'')]])
      (update (replying (JObj [(''title'', JStr ''A'')])) (JObj [(''title'', JStr ''A'')]) (Some 0)
         (initial [[(''action'', JStr ''create''), (''dirty_values'', JStr ''drop'')]]))
   \<and> upsert (replying (JObj [(''title'', JStr ''A'')])) (JObj [(''title'', JStr ''A'')]) (Some 0)
         (initial [[(''action'', JStr ''create''), (''dirty_values'', JStr ''drop'')]])
     = (Inr (JObj [(''title'', JStr ''A'')]),
        \<lparr>heap = [[(''action'', JStr ''create''), (''dirty_values'', JStr ''drop'')],
                 [(''action'', JStr ''upsert''), (''dirty_values'', JStr ''drop'')],
                 [(''action'', JStr ''upsert'')]],
         calls = [Post ''/collections/books/documents'' (JObj [(''title'', JStr ''A'')]) 1],
         warnings = [], world = 1\<rparr>)\<close>
proof -
  let ?doc = "JObj [(''title'', JStr ''A'')]"
  let ?s = "initial [[(''action'', JStr ''create''), (''dirty_values'', JStr ''drop'')]] :: nat state"
  have f: "\<not> falsy ?doc"
    by simp
  have d: "default_options (Some 0) ?s = (0, ?s)"
    by (simp add: default_options_def)
  have v: "0 < length (heap ?s)"
    by (simp add: initial_def)
  have e: "upsert (replying ?doc) ?doc (Some 0) ?s
     = (Inr ?doc,
        \<lparr>heap = [[(''action'', JStr ''create''), (''dirty_values'', JStr ''drop'')],
                 [(''action'', JStr ''upsert''), (''dirty_values'', JStr ''drop'')],
                 [(''action'', JStr ''upsert'')]],
         calls = [Post ''/collections/books/documents'' ?doc 1],
         warnings = [], world = 1\<rparr>)"
    by code_simp
  show ?thesis
    using upsert_update_set_action [OF f d v, of "replying ?doc"] e by simp
qed

text \<open>
  As C9 is stated, every field of the caller's options but \<^verbatim>\<open>action\<close> is passed through.
  An own \<^verbatim>\<open>__proto__\<close> is not: \<^verbatim>\<open>Object.assign\<close> writes it through the setter of
  \<^verbatim>\<open>Object.prototype\<close>, which makes no property, so the object sent has
  \<^verbatim>\<open>dirty_values\<close> and \<^verbatim>\<open>action\<close> only.
\<close>

theorem own_proto_not_passed_counterexample:
  \<open>map_of (own_properties
       (heap (initial [[(''__proto__'', JStr ''x''), (''dirty_values'', JStr ''drop'')]] :: nat state)) 0)
      ''__proto__'' = Some (JStr ''x'')
   \<and> upsert (replying (JObj [(''title'', JStr ''A'')])) (JObj [(''title'', JStr ''A'')]) (Some 0)
         (initial [[(''__proto__'', JStr ''x''), (''dirty_values'', JStr ''drop'')]])
     = (Inr (JObj [(''title'', JStr ''A'')]),
        \<lparr>heap = [[(''__proto__'', JStr ''x''), (''dirty_values'', JStr ''drop'')],
                 [(''dirty_values'', JStr ''drop''), (''action'', JStr ''upsert'')],
                 [(''action'', JStr ''upsert'')]],
         calls = [Post ''/collections/books/documents'' (JObj [(''title'', JStr ''A'')]) 1],
         warnings = [], world = 1\<rparr>)
   \<and> update (replying (JObj [(''title'', JStr ''A'')])) (JObj [(''title'', JStr ''A'')]) (Some 0)
         (initial [[(''__proto__'', JStr ''x''), (''dirty_values'', JStr ''drop'')]])
     = (Inr (JObj [(''title'', JStr ''A'')]),
        \<lparr>heap = [[(''__proto__'', JStr ''x''), (''dirty_values'', JStr ''drop'')],
                 [(''dirty_values'', JStr ''drop''), (''action'', JStr ''update'')],
                 [(''action'', JStr ''update'')]],
         calls = [Post ''/collections/books/documents'' (JObj [(''title'', JStr ''A'')]) 1],
         warnings = [], world = 1\<rparr>)\<close>
  by code_simp

subsection \<open>C10: no document\<close>

text \<open>
  Claim C10. With a falsy document \<^verbatim>\<open>create\<close>, \<^verbatim>\<open>upsert\<close> and \<^verbatim>\<open>update\<close> end with the
  error \<^verbatim>\<open>No document provided\<close> and make no request; the log, the state behind the
  transport and every existing object are as before. When the caller passed options
  the state is exactly the one before the call; when not, the only difference is the
  unused empty object of the default.
\<close>

theorem no_document_no_request:
  assumes "falsy document"
  shows "no_document_outcome s (create this document options s)
       \<and> no_document_outcome s (upsert this document options s)
       \<and> no_document_outcome s (update this document options s)
       \<and> (\<forall>r. create this document (Some r) s = (Inl (Error ''No document provided''), s)
              \<and> upsert this document (Some r) s = (Inl (Error ''No document provided''), s)
              \<and> update this document (Some r) s = (Inl (Error ''No document provided''), s))"
proof -
  obtain opts s1 where d: "default_options options s = (opts, s1)"
    by (cases "default_options options s")
  have "create this document options s = (Inl (Error ''No document provided''), s1)"
    and "upsert this document options s = (Inl (Error ''No document provided''), s1)"
    and "update this document options s = (Inl (Error ''No document provided''), s1)"
    using assms by (simp_all add: create_def upsert_def update_def d)
  moreover have "calls s1 = calls s \<and> world s1 = world s \<and> warnings s1 = warnings s
      \<and> take (length (heap s)) (heap s1) = heap s"
    using default_options_snd [of options s] d by simp
  moreover have "create this document (Some r) s = (Inl (Error ''No document provided''), s)
              \<and> upsert this document (Some r) s = (Inl (Error ''No document provided''), s)
              \<and> update this document (Some r) s = (Inl (Error ''No document provided''), s)" for r
    using assms by (simp add: create_def upsert_def update_def default_options_frame)
  ultimately show ?thesis
    by (simp add: no_document_outcome_def)
qed

text \<open>
  \<^verbatim>\<open>undefined\<close>, the empty string, zero and \<^verbatim>\<open>null\<close> are all refused.
\<close>

theorem no_document_no_request_witness:
  \<open>create (replying JNull) JUndefined (Some 0) (initial [[]])
     = (Inl (Error ''No document provided''), initial [[]])
   \<and> upsert (replying JNull) (JStr []) (Some 0) (initial [[]])
     = (Inl (Error ''No document provided''), initial [[]])
   \<and> update (replying JNull) (JNum 0) (Some 0) (initial [[]])
     = (Inl (Error ''No document provided''), initial [[]])
   \<and> no_document_outcome (initial []) (create (replying JNull) JNull None (initial []))\<close>
proof -
  have f: "falsy JUndefined" "falsy (JStr [])" "falsy (JNum 0)" "falsy JNull"
    by simp_all
  show ?thesis
    using no_document_no_request [OF f(1), where this = "replying JNull" and s = "initial [[]]"]
      no_document_no_request [OF f(2), where this = "replying JNull" and s = "initial [[]]"]
      no_document_no_request [OF f(3), where this = "replying JNull" and s = "initial [[]]"]
      no_document_no_request [OF f(4), where this = "replying JNull" and s = "initial []"
        and options = None]
    by simp
qed

end
